theory Spec2Isabelle
  imports Main "HOL-Library.Word" "HOL-Library.Signed_Division"
begin

unbundle bit_operations_syntax

section \<open>The MIEP interpreter (miep.go) as a shallow embedding\<close>

text \<open>
  The interpreter is one mutable struct \<open>MiepInterpreter\<close>; every method becomes a function
  that takes the record and returns the updated one. Go's \<open>int16\<close> is \<open>16 word\<close> (arithmetic
  wraps, \<open>sint\<close> reads the signed value), \<open>byte\<close> is \<open>8 word\<close>, the program text is a
  \<open>string\<close> of 8-bit characters and \<open>currentChar\<close> answers the byte 0 past its end, as
  the source does. A Go runtime panic (index out of range, failed type assertion) and
  \<open>os.Exit\<close> are results of the model, never hidden.
\<close>

subsection \<open>Data model\<close>

type_synonym int16 = "16 word"
type_synonym byte = "8 word"

text \<open>A cell of the runtime stack (\<open>[]interface{}\<close>): the dynamic type is part of the value.\<close>

datatype cell = CStr string | CInt int | CI16 int16

text \<open>
  The fields of \<open>MiepInterpreter\<close>, under the source's names (\<open>mod\<close> is \<open>mod_reg\<close>).
  \<open>memory\<close> is the array \<open>[65536]byte\<close>, read only through the bounds check of
  \<open>mem_index\<close>; \<open>variables\<close> is \<open>[26]int16\<close>. The last five fields are the process
  environment the methods touch: \<open>reader\<close> is what is left of standard input,
  \<open>out\<close> what has been written to standard output, \<open>files\<close> the file system seen by
  \<open>os.ReadFile\<close>, \<open>rnd\<close> the values the random generator will draw and \<open>seed\<close> the
  last value given to \<open>rand.Seed\<close>. \<open>pos\<close> is a natural number: the source only ever
  decrements it right after having advanced it. The cells of \<open>memory\<close> are named by the
  integers from 0 to 65535.
\<close>

record interp =
  variables :: "nat \<Rightarrow> int16"
  memory :: "int \<Rightarrow> byte"
  pbuff :: string
  psize :: nat
  s :: string
  pos :: nat
  ln :: int
  stack :: "cell list"
  sp :: int
  tron :: bool
  mod_reg :: int16
  forMode :: int
  reader :: string
  out :: string
  files :: "string \<Rightarrow> string option"
  rnd :: "nat list"
  seed :: int

text \<open>How a call ends when it does not return a value to its caller.\<close>

datatype outcome = Returned | Exited int | Panicked

type_synonym stop = "outcome \<times> interp"

text \<open>
  Results: \<open>None\<close> is a computation that has not returned (out of fuel, or a loop of the
  source that never ends), \<open>Some (Inl stop)\<close> the end of the process or of \<open>run\<close>,
  \<open>Some (Inr x)\<close> a value returned to the caller.
\<close>

definition bnd :: "(stop + 'a) option \<Rightarrow> ('a \<Rightarrow> (stop + 'b) option) \<Rightarrow> (stop + 'b) option" where
  "bnd r f = (case r of None \<Rightarrow> None | Some (Inl e) \<Rightarrow> Some (Inl e) | Some (Inr x) \<Rightarrow> f x)"

text \<open>\<open>NewInterpreter\<close> with a loaded environment: everything zero, the stack empty.\<close>

definition NewInterpreter :: "string \<Rightarrow> (string \<Rightarrow> string option) \<Rightarrow> nat list \<Rightarrow> interp" where
  "NewInterpreter inp fs rs =
     \<lparr>variables = (\<lambda>_. 0), memory = (\<lambda>_. 0), pbuff = [], psize = 0, s = [], pos = 0,
      ln = 0, stack = [], sp = 0, tron = False, mod_reg = 0, forMode = 0,
      reader = inp, out = [], files = fs, rnd = rs, seed = 0\<rparr>"

subsection \<open>Character cursor\<close>

definition NUL :: char where
  "NUL = CHR 0x00"

definition NL :: char where
  "NL = CHR 0x0A"

definition code :: "char \<Rightarrow> nat" where
  "code c = of_char c"

definition currentChar :: "interp \<Rightarrow> char" where
  "currentChar m = (if pos m < length (s m) then s m ! pos m else NUL)"

definition advance :: "interp \<Rightarrow> nat \<Rightarrow> interp" where
  "advance m count = m\<lparr>pos := pos m + count\<rparr>"

definition peek :: "interp \<Rightarrow> nat \<Rightarrow> char" where
  "peek m offset = (if pos m + offset < length (s m) then s m ! (pos m + offset) else NUL)"

text \<open>
  The scanning loops of the source all have the shape
  \<open>for p(m.currentChar()) { m.advance(1) }\<close> with a test that fails on the byte 0, so
  they stop at the end of the text at the latest.
\<close>

function advanceWhile :: "(char \<Rightarrow> bool) \<Rightarrow> interp \<Rightarrow> interp" where
  "advanceWhile p m =
     (if pos m < length (s m) \<and> p (currentChar m) then advanceWhile p (advance m 1) else m)"
  by pat_completeness auto
termination
  by (relation "measure (\<lambda>(p, m). length (s m) - pos m)") (auto simp: advance_def)

declare advanceWhile.simps [simp del]

definition skipSpaces :: "interp \<Rightarrow> interp" where
  "skipSpaces m = advanceWhile (\<lambda>c. c = CHR '' '') m"

subsection \<open>Printing\<close>

definition digit_char :: "nat \<Rightarrow> char" where
  "digit_char d = (if d < 10 then char_of (48 + d) else char_of (87 + d))"

fun show_nat :: "nat \<Rightarrow> string" where
  "show_nat n = (if n < 10 then [digit_char n] else show_nat (n div 10) @ [digit_char (n mod 10)])"

declare show_nat.simps [simp del]

fun show_hex :: "nat \<Rightarrow> string" where
  "show_hex n = (if n < 16 then [digit_char n] else show_hex (n div 16) @ [digit_char (n mod 16)])"

declare show_hex.simps [simp del]

text \<open>\<open>%d\<close> of a Go \<open>int\<close>.\<close>

definition show_int :: "int \<Rightarrow> string" where
  "show_int i = (if i < 0 then CHR ''-'' # show_nat (nat (- i)) else show_nat (nat i))"

text \<open>\<open>%0Nx\<close>: hexadecimal, padded with zeros on the left to at least \<open>w\<close> characters.\<close>

definition show_hex_pad :: "nat \<Rightarrow> nat \<Rightarrow> string" where
  "show_hex_pad w n = (let h = show_hex n in replicate (w - length h) CHR ''0'' @ h)"

text \<open>
  \<open>fmt.Printf(fmt.Sprintf("%%%dd", width), v)\<close>: a positive width pads with spaces on the
  left, a negative one reads as the flag \<open>-\<close> and pads on the right, width 0 reads as the
  flag \<open>0\<close> with no width.
\<close>

definition show_width :: "int \<Rightarrow> int \<Rightarrow> string" where
  "show_width w v =
     (let d = show_int v in
      if 0 \<le> w then replicate (nat w - length d) CHR '' '' @ d
      else d @ replicate (nat (- w) - length d) CHR '' '')"

text \<open>\<open>%c\<close> of a byte: the rune of that number, written in UTF-8.\<close>

definition show_rune :: "byte \<Rightarrow> string" where
  "show_rune b =
     (let n = unat b in
      if n < 128 then [char_of n] else [char_of (192 + n div 64), char_of (128 + n mod 64)])"

definition print :: "interp \<Rightarrow> string \<Rightarrow> interp" where
  "print m txt = m\<lparr>out := out m @ txt\<rparr>"

definition syntaxError :: "interp \<Rightarrow> interp" where
  "syntaxError m = print m (NL # ''Syntaxerror in '' @ show_int (ln m))"

definition skipChar :: "interp \<Rightarrow> char \<Rightarrow> interp" where
  "skipChar m c = (if currentChar m = c then advance m 1 else syntaxError m)"

subsection \<open>Character classes\<close>

definition isAlpha :: "char \<Rightarrow> bool" where
  "isAlpha c = ((97 \<le> code c \<and> code c \<le> 122) \<or> (65 \<le> code c \<and> code c \<le> 90))"

definition isDigit :: "char \<Rightarrow> bool" where
  "isDigit c = (48 \<le> code c \<and> code c \<le> 57)"

definition isXDigit :: "char \<Rightarrow> bool" where
  "isXDigit c = (isDigit c \<or> (97 \<le> code c \<and> code c \<le> 102) \<or> (65 \<le> code c \<and> code c \<le> 70))"

definition toUpper :: "char \<Rightarrow> char" where
  "toUpper c = (if 97 \<le> code c \<and> code c \<le> 122 then char_of (code c - 97 + 65) else c)"

text \<open>\<open>toUpper(c) - 'A'\<close>, a subtraction of bytes.\<close>

definition varIndex :: "char \<Rightarrow> nat" where
  "varIndex c = (code (toUpper c) + 256 - 65) mod 256"

subsection \<open>The library calls the source makes\<close>

text \<open>
  \<open>strconv.ParseInt(str, base, bits)\<close> with the error dropped, as every call of the source
  drops it: an optional sign, then digits of the base; a character that is no digit of
  the base, or no digit at all, gives 0; a value out of the range of \<open>bits\<close> bits gives
  the nearest bound. \<open>strconv.Atoi\<close> is \<open>parseInt 10 64\<close> (a Go \<open>int\<close> of 64 bits).
\<close>

definition digitVal :: "char \<Rightarrow> int option" where
  "digitVal c =
     (if isDigit c then Some (int (code c) - 48)
      else if 97 \<le> code c \<and> code c \<le> 122 then Some (int (code c) - 97 + 10)
      else if 65 \<le> code c \<and> code c \<le> 90 then Some (int (code c) - 65 + 10)
      else None)"

fun parseUint_loop :: "int \<Rightarrow> int \<Rightarrow> int \<Rightarrow> string \<Rightarrow> int option" where
  "parseUint_loop base maxVal n [] = Some n"
| "parseUint_loop base maxVal n (c # cs) =
     (case digitVal c of
        None \<Rightarrow> None
      | Some d \<Rightarrow>
          if base \<le> d then None
          else if maxVal < n * base + d then Some maxVal
          else parseUint_loop base maxVal (n * base + d) cs)"

definition parseUint :: "int \<Rightarrow> nat \<Rightarrow> string \<Rightarrow> int option" where
  "parseUint base bits str = (if str = [] then None else parseUint_loop base (2 ^ bits - 1) 0 str)"

definition parseInt :: "int \<Rightarrow> nat \<Rightarrow> string \<Rightarrow> int" where
  "parseInt base bits str =
     (if str = [] then 0
      else
        let neg = (hd str = CHR ''-'');
            body = (if hd str = CHR ''+'' \<or> hd str = CHR ''-'' then tl str else str)
        in case parseUint base bits body of
             None \<Rightarrow> 0
           | Some un \<Rightarrow>
               let cutoff = (2::int) ^ (bits - 1) in
               if \<not> neg \<and> cutoff \<le> un then cutoff - 1
               else if neg \<and> cutoff < un then - cutoff
               else if neg then - un else un)"

definition Atoi :: "string \<Rightarrow> int" where
  "Atoi str = parseInt 10 64 str"

text \<open>\<open>strings.TrimSpace\<close>, on the white space of ASCII.\<close>

definition isSpace :: "char \<Rightarrow> bool" where
  "isSpace c = (code c = 32 \<or> (9 \<le> code c \<and> code c \<le> 13))"

definition TrimSpace :: "string \<Rightarrow> string" where
  "TrimSpace str = rev (dropWhile isSpace (rev (dropWhile isSpace str)))"

text \<open>\<open>reader.ReadByte\<close>: the next byte of standard input, 0 at its end.\<close>

definition ReadByte :: "interp \<Rightarrow> byte \<times> interp" where
  "ReadByte m =
     (case reader m of [] \<Rightarrow> (0, m) | c # cs \<Rightarrow> (of_nat (code c), m\<lparr>reader := cs\<rparr>))"

text \<open>\<open>reader.ReadString('\n')\<close>: up to and with the first newline, or all that is left.\<close>

definition ReadString :: "interp \<Rightarrow> string \<times> interp" where
  "ReadString m =
     (let pre = takeWhile (\<lambda>c. c \<noteq> NL) (reader m); rest = dropWhile (\<lambda>c. c \<noteq> NL) (reader m)
      in case rest of [] \<Rightarrow> (pre, m\<lparr>reader := []\<rparr>) | c # cs \<Rightarrow> (pre @ [c], m\<lparr>reader := cs\<rparr>))"

text \<open>\<open>rand.Intn(n)\<close> for \<open>0 < n\<close>: the next draw, reduced below \<open>n\<close>.\<close>

definition Intn :: "interp \<Rightarrow> nat \<Rightarrow> nat \<times> interp" where
  "Intn m n = (case rnd m of [] \<Rightarrow> (0, m) | r # rs \<Rightarrow> (r mod n, m\<lparr>rnd := rs\<rparr>))"

subsection \<open>Tokens\<close>

text \<open>The text between two cursor positions, \<open>m.s[start:stop]\<close>.\<close>

definition slice :: "string \<Rightarrow> nat \<Rightarrow> nat \<Rightarrow> string" where
  "slice str start stop = take (stop - start) (drop start str)"

definition getOperator2 :: "interp \<Rightarrow> char \<times> interp" where
  "getOperator2 m =
     (let c = currentChar m in
      if c = CHR ''='' \<or> c = CHR ''+'' \<or> c = CHR ''-'' \<or> c = CHR ''*'' \<or> c = CHR ''/''
      then (c, advance m 1)
      else if c = CHR ''<'' then
        (let m1 = advance m 1 in
         if currentChar m1 = CHR ''>'' then (CHR ''N'', advance m1 1)
         else if currentChar m1 = CHR ''='' then (CHR ''A'', advance m1 1)
         else (CHR ''<'', m1))
      else if c = CHR ''>'' then
        (let m1 = advance m 1 in
         if currentChar m1 = CHR ''='' then (CHR ''B'', advance m1 1)
         else (CHR ''>'', m1))
      else (NUL, m))"

definition getOperator1 :: "interp \<Rightarrow> char \<times> interp" where
  "getOperator1 m =
     (let c = currentChar m in
      if c = CHR ''+'' \<or> c = CHR ''-'' \<or> c = CHR 0x27 \<or> c = CHR ''#'' \<or> c = CHR ''%''
      then (c, advance m 1)
      else (NUL, m))"

definition getVariable :: "interp \<Rightarrow> char \<times> interp" where
  "getVariable m =
     (if isAlpha (currentChar m) then (currentChar m, advanceWhile isAlpha m) else (NUL, m))"

definition getHexValue :: "interp \<Rightarrow> int16 \<times> interp" where
  "getHexValue m =
     (if \<not> isXDigit (currentChar m) then (- 1, m)
      else
        let m1 = advanceWhile isXDigit m
        in (word_of_int (parseInt 16 32 (slice (s m1) (pos m) (pos m1))), m1))"

definition getDecimalValue :: "interp \<Rightarrow> int16 \<times> interp" where
  "getDecimalValue m =
     (if \<not> isDigit (currentChar m) then (- 1, m)
      else
        let m1 = advanceWhile isDigit m
        in (word_of_int (Atoi (slice (s m1) (pos m) (pos m1))), m1))"

definition getString :: "interp \<Rightarrow> string \<times> interp" where
  "getString m =
     (if currentChar m = CHR 0x22 then
        let m1 = skipChar m (CHR 0x22);
            m2 = advanceWhile (\<lambda>c. c \<noteq> CHR 0x22 \<and> c \<noteq> NUL) m1
        in (slice (s m2) (pos m1) (pos m2), skipChar m2 (CHR 0x22))
      else ([], m))"

definition getConstant :: "interp \<Rightarrow> int16 \<times> interp" where
  "getConstant m =
     (if currentChar m = CHR 0x22 then
        let (str, m1) = getString m;
            v0 = (if 0 < length str then of_nat (code (str ! 0)) else 0);
            v1 = (if 1 < length str then v0 + of_nat (code (str ! 1)) * 256 else v0)
        in (v1, m1)
      else if currentChar m = CHR ''$'' then getHexValue (skipChar m CHR ''$'')
      else if isDigit (currentChar m) then getDecimalValue m
      else (0, m))"

subsection \<open>Memory\<close>

text \<open>
  \<open>m.memory[i]\<close> with \<open>i\<close> of type \<open>int16\<close>: Go checks \<open>0 <= i < 65536\<close> on the signed
  value of the index and panics otherwise.
\<close>

definition mem_index :: "int16 \<Rightarrow> int option" where
  "mem_index i = (if 0 \<le> sint i \<and> sint i < 65536 then Some (sint i) else None)"

text \<open>\<open>int16(m.memory[i])\<close>, the read of the byte-array form \<open>V:expr)\<close>.\<close>

definition byteAt :: "interp \<Rightarrow> int16 \<Rightarrow> stop + int16 \<times> interp" where
  "byteAt m i =
     (case mem_index i of
        None \<Rightarrow> Inl (Panicked, m)
      | Some a \<Rightarrow> Inr (ucast (memory m a), m))"

text \<open>
  \<open>int16(m.memory[addr]) | (int16(m.memory[addr+1]) << 8)\<close>, the read of the word-array
  form \<open>V(expr)\<close>; \<open>addr + 1\<close> is an addition of \<open>int16\<close>.
\<close>

definition wordAt :: "interp \<Rightarrow> int16 \<Rightarrow> stop + int16 \<times> interp" where
  "wordAt m addr =
     (case mem_index addr of
        None \<Rightarrow> Inl (Panicked, m)
      | Some a \<Rightarrow>
          (case mem_index (addr + 1) of
             None \<Rightarrow> Inl (Panicked, m)
           | Some b \<Rightarrow> Inr (ucast (memory m a) OR push_bit 8 (ucast (memory m b)), m)))"

text \<open>\<open>m.memory[i] = byte(v)\<close>, the write of the byte-array form.\<close>

definition setByteAt :: "interp \<Rightarrow> int16 \<Rightarrow> int16 \<Rightarrow> stop + interp" where
  "setByteAt m i v =
     (case mem_index i of
        None \<Rightarrow> Inl (Panicked, m)
      | Some a \<Rightarrow> Inr (m\<lparr>memory := (memory m)(a := ucast v)\<rparr>))"

text \<open>
  \<open>m.memory[addr] = byte(v); m.memory[addr+1] = byte(v >> 8)\<close>, the write of the
  word-array form: the first byte is stored before the second index is checked.
\<close>

definition setWordAt :: "interp \<Rightarrow> int16 \<Rightarrow> int16 \<Rightarrow> stop + interp" where
  "setWordAt m addr v =
     (case setByteAt m addr v of
        Inl e \<Rightarrow> Inl e
      | Inr m1 \<Rightarrow> setByteAt m1 (addr + 1) (signed_drop_bit 8 v))"

subsection \<open>Expression evaluator\<close>

text \<open>Go's \<open>/\<close> and \<open>%\<close> on \<open>int16\<close>: truncated towards zero, wrapping to 16 bits.\<close>

definition div16 :: "int16 \<Rightarrow> int16 \<Rightarrow> int16" where
  "div16 v w = word_of_int (sint v sdiv sint w)"

definition rem16 :: "int16 \<Rightarrow> int16 \<Rightarrow> int16" where
  "rem16 v w = word_of_int (sint v smod sint w)"

definition flag :: "bool \<Rightarrow> int16" where
  "flag b = (if b then 1 else 0)"

text \<open>The \<open>switch c\<close> of \<open>expression\<close>: one binary operator applied to \<open>v\<close> and \<open>v2\<close>.\<close>

definition applyOp :: "char \<Rightarrow> int16 \<Rightarrow> int16 \<Rightarrow> interp \<Rightarrow> int16 \<times> interp" where
  "applyOp c v v2 m =
     (if c = CHR ''+'' then (v + v2, m)
      else if c = CHR ''-'' then (v - v2, m)
      else if c = CHR ''*'' then (v * v2, m)
      else if c = CHR ''/'' then
        (if v2 = 0 then (- 1, print m (''Division by zero'' @ [NL]))
         else (div16 v v2, m\<lparr>mod_reg := rem16 v v2\<rparr>))
      else if c = CHR ''='' then (flag (v = v2), m)
      else if c = CHR ''<'' then (flag (v <s v2), m)
      else if c = CHR ''N'' then (flag (v \<noteq> v2), m)
      else if c = CHR ''A'' then (flag (v \<le>s v2), m)
      else if c = CHR ''>'' then (flag (v2 <s v), m)
      else if c = CHR ''B'' then (flag (v2 \<le>s v), m)
      else (v, m))"

text \<open>The \<open>switch c\<close> of \<open>term\<close>: one unary operator applied to the value of its operand.\<close>

definition applyUnary :: "char \<Rightarrow> int16 \<Rightarrow> interp \<Rightarrow> int16 \<times> interp" where
  "applyUnary c v m =
     (if c = CHR ''-'' then (- v, m)
      else if c = CHR ''+'' then (if v <s 0 then - v else v, m)
      else if c = CHR ''#'' then (if v \<noteq> 0 then 0 else 1, m)
      else if c = CHR 0x27 then
        (if 0 <s v then (let (r, m1) = Intn m (nat (sint v)) in (of_nat r, m1)) else (0, m))
      else if c = CHR ''%'' then (mod_reg m, m)
      else (0, m))"

text \<open>The line typed at the \<open>?\<close> term, read as a number.\<close>

definition inputValue :: "string \<Rightarrow> int16" where
  "inputValue line0 =
     (let line = TrimSpace line0 in
      if line \<noteq> [] \<and> hd line = CHR ''$'' then word_of_int (parseInt 16 32 (tl line))
      else word_of_int (Atoi line))"

text \<open>
  \<open>term\<close> and \<open>expression\<close> call each other; the first argument bounds the depth of the
  calls (and the number of operators of one expression), \<open>None\<close> when it is used up.
  \<open>expression_loop\<close> is the \<open>for\<close> of \<open>expression\<close>.
\<close>

fun term' :: "nat \<Rightarrow> interp \<Rightarrow> (stop + int16 \<times> interp) option"
  and expression :: "nat \<Rightarrow> interp \<Rightarrow> (stop + int16 \<times> interp) option"
  and expression_loop :: "nat \<Rightarrow> int16 \<Rightarrow> interp \<Rightarrow> (stop + int16 \<times> interp) option" where
  "term' 0 m0 = None"
| "term' (Suc n) m0 =
     (let m = skipSpaces m0 in
      if currentChar m = CHR ''('' then
        bnd (expression n (skipChar m CHR ''(''))
          (\<lambda>(v, m1). Some (Inr (v, skipChar (skipSpaces m1) CHR '')'')))
      else
        let (c, m1) = getVariable m in
        if c \<noteq> NUL then
          (if currentChar m1 = CHR '':'' then
             bnd (expression n (skipChar m1 CHR '':''))
               (\<lambda>(v, m2).
                  let m3 = skipChar m2 CHR '')''
                  in Some (byteAt m3 (variables m3 (varIndex c) + v)))
           else if currentChar m1 = CHR ''('' then
             bnd (expression n (skipChar m1 CHR ''(''))
               (\<lambda>(v, m2).
                  let m3 = skipChar m2 CHR '')''
                  in Some (wordAt m3 (variables m3 (varIndex c) + v * 2)))
           else Some (Inr (variables m1 (varIndex c), m1)))
        else if currentChar m1 = CHR ''$'' \<and> \<not> isXDigit (peek m1 1) then
          (let (b, m2) = ReadByte (advance m1 1) in Some (Inr (ucast b, m2)))
        else if currentChar m1 = CHR ''?'' then
          (let (line, m2) = ReadString (advance m1 1) in Some (Inr (inputValue line, m2)))
        else
          let (v, m2) = getConstant m1 in
          if v \<noteq> 0 \<or> pos m2 \<noteq> pos m1 then Some (Inr (v, m2))
          else
            let (u, m3) = getOperator1 m2 in
            if u \<noteq> NUL then
              bnd (term' n m3) (\<lambda>(v, m4). Some (Inr (applyUnary u v m4)))
            else Some (Inr (0, m3)))"
| "expression 0 m0 = None"
| "expression (Suc n) m0 = bnd (term' n (skipSpaces m0)) (\<lambda>(v, m1). expression_loop n v m1)"
| "expression_loop 0 v m = None"
| "expression_loop (Suc n) v m =
     (let (c, m1) = getOperator2 m in
      if c = NUL then Some (Inr (v, m1))
      else
        bnd (term' n m1)
          (\<lambda>(v2, m2). let (v', m3) = applyOp c v v2 m2 in expression_loop n v' m3))"

declare term'.simps(2) [simp del] expression.simps(2) [simp del] expression_loop.simps(2) [simp del]

subsection \<open>Control-flow engine\<close>

definition skipToNewline :: "interp \<Rightarrow> interp" where
  "skipToNewline m =
     (let m1 = advanceWhile (\<lambda>c. c \<noteq> NL \<and> c \<noteq> NUL) m
      in if currentChar m1 = NL then advance m1 1 else m1)"

text \<open>
  \<open>for m.currentChar() != '\n' { m.advance(1) }\<close>, the loop of \<open>searchLine\<close> over the
  comment line and of \<open>loadSourceCommand\<close> over the file name. It has no test for the end
  of the text: \<open>None\<close> is the loop that never ends.
\<close>

partial_function (option) advanceToNewline :: "interp \<Rightarrow> interp option" where
  "advanceToNewline m = (if currentChar m \<noteq> NL then advanceToNewline (advance m 1) else Some m)"

declare advanceToNewline.simps [code]

lemma advanceWhile_step:
  "pos m < length (s m) \<Longrightarrow> p (currentChar m) \<Longrightarrow> advanceWhile p m = advanceWhile p (advance m 1)"
  by (subst advanceWhile.simps) simp

lemma advanceWhile_stop:
  "\<not> (pos m < length (s m) \<and> p (currentChar m)) \<Longrightarrow> advanceWhile p m = m"
  by (subst advanceWhile.simps) auto

lemma pos_advanceWhile: "pos m \<le> pos (advanceWhile p m)"
proof (induction p m rule: advanceWhile.induct)
  case (1 p m)
  show ?case
  proof (cases "pos m < length (s m) \<and> p (currentChar m)")
    case True
    then have "pos (advance m 1) \<le> pos (advanceWhile p (advance m 1))"
      by (rule "1.IH")
    then show ?thesis
      using True by (simp add: advanceWhile_step advance_def)
  next
    case False
    then show ?thesis by (simp add: advanceWhile_stop)
  qed
qed

lemma s_advanceWhile: "s (advanceWhile p m) = s m"
proof (induction p m rule: advanceWhile.induct)
  case (1 p m)
  show ?case
  proof (cases "pos m < length (s m) \<and> p (currentChar m)")
    case True
    then have "s (advanceWhile p (advance m 1)) = s (advance m 1)"
      by (rule "1.IH")
    then show ?thesis
      using True by (simp add: advanceWhile_step advance_def)
  next
    case False
    then show ?thesis by (simp add: advanceWhile_stop)
  qed
qed

lemma pos_advanceWhile_less:
  assumes "pos m < length (s m)" and "p (currentChar m)"
  shows "pos m < pos (advanceWhile p m)"
proof -
  have "pos (advance m 1) \<le> pos (advanceWhile p (advance m 1))"
    by (rule pos_advanceWhile)
  then show ?thesis
    using assms by (simp add: advanceWhile_step advance_def)
qed

lemma pos_skipToNewline: "pos m \<le> pos (skipToNewline m)"
proof -
  have "pos m \<le> pos (advanceWhile (\<lambda>c. c \<noteq> NL \<and> c \<noteq> NUL) m)"
    by (rule pos_advanceWhile)
  then show ?thesis by (simp add: skipToNewline_def Let_def advance_def)
qed

lemma s_skipToNewline: "s (skipToNewline m) = s m"
  by (simp add: skipToNewline_def Let_def advance_def s_advanceWhile)

lemma getDecimalValue_progress:
  assumes "getDecimalValue m = (v, m1)" and "v \<noteq> - 1" and "pos m < length (s m)"
  shows "pos m < pos m1 \<and> s m1 = s m"
proof -
  have d: "isDigit (currentChar m)"
    using assms by (auto simp: getDecimalValue_def split: if_splits)
  then have "m1 = advanceWhile isDigit m"
    using assms by (auto simp: getDecimalValue_def Let_def)
  then show ?thesis
    using d assms(3) by (simp add: pos_advanceWhile_less s_advanceWhile)
qed

text \<open>The \<open>for m.pos < len(m.s)\<close> of \<open>searchLine\<close>.\<close>

function searchLine_loop :: "int16 \<Rightarrow> interp \<Rightarrow> int16 \<times> interp" where
  "searchLine_loop targetLine m =
     (if pos m < length (s m) then
        (case getDecimalValue m of
           (lineNum, m1) \<Rightarrow>
             if lineNum = - 1 then (- 1, m1)
             else if targetLine \<le>s lineNum then (lineNum, m1\<lparr>pos := pos m\<rparr>)
             else searchLine_loop targetLine (skipToNewline m1))
      else (- 1, m))"
  by pat_completeness auto
termination
proof (relation "measure (\<lambda>(t, m). length (s m) - pos m)", goal_cases)
  case 1
  show ?case by simp
next
  case (2 targetLine m lineNum m1)
  then have "pos m < pos m1 \<and> s m1 = s m"
    using getDecimalValue_progress [of m lineNum m1] by simp
  moreover have "pos m1 \<le> pos (skipToNewline m1)"
    by (rule pos_skipToNewline)
  ultimately show ?case
    using 2 by (auto simp: s_skipToNewline)
qed

declare searchLine_loop.simps [simp del]

definition searchLine :: "interp \<Rightarrow> int16 \<Rightarrow> (int16 \<times> interp) option" where
  "searchLine m targetLine =
     (let m0 = m\<lparr>s := pbuff m, pos := 0\<rparr> in
      if 0 < length (s m0) \<and> s m0 ! 0 = CHR ''#'' then
        (case advanceToNewline m0 of
           None \<Rightarrow> None
         | Some m1 \<Rightarrow> Some (searchLine_loop targetLine (advance m1 1)))
      else Some (searchLine_loop targetLine m0))"

definition gotoLine :: "interp \<Rightarrow> int16 \<Rightarrow> interp option" where
  "gotoLine m lineNum =
     (if lineNum = - 1 then Some (m\<lparr>ln := - 1\<rparr>)
      else map_option (\<lambda>(r, m1). m1\<lparr>ln := sint r\<rparr>) (searchLine m lineNum))"

text \<open>\<open>m.stack = append(m.stack, x)\<close>.\<close>

definition push :: "interp \<Rightarrow> cell \<Rightarrow> interp" where
  "push m x = m\<lparr>stack := stack m @ [x]\<rparr>"

text \<open>\<open>m.stack[i]\<close>: \<open>None\<close> is the panic of an index out of range.\<close>

definition cellAt :: "cell list \<Rightarrow> int \<Rightarrow> cell option" where
  "cellAt st i = (if 0 \<le> i \<and> i < int (length st) then Some (st ! nat i) else None)"

text \<open>
  \<open>m.stack = m.stack[:m.sp]\<close>. The source keeps \<open>m.sp = len(m.stack)\<close>, so the slice
  never reaches past the length.
\<close>

definition truncateStack :: "interp \<Rightarrow> interp" where
  "truncateStack m = m\<lparr>stack := take (nat (sp m)) (stack m)\<rparr>"

definition gosub :: "interp \<Rightarrow> int16 \<Rightarrow> interp option" where
  "gosub m lineNum =
     (let m1 = push m (CStr (s m));
          m2 = push m1 (CInt (int (pos m1)));
          m3 = m2\<lparr>sp := sp m2 + 2\<rparr>
      in gotoLine m3 lineNum)"

definition returnFromSub :: "interp \<Rightarrow> stop + interp" where
  "returnFromSub m =
     (if 2 \<le> sp m then
        let m1 = m\<lparr>sp := sp m - 2\<rparr> in
        case cellAt (stack m1) (sp m1 + 1) of
          Some (CInt p) \<Rightarrow>
            (let m2 = m1\<lparr>pos := nat p\<rparr> in
             case cellAt (stack m2) (sp m2) of
               Some (CStr t) \<Rightarrow> Inr (truncateStack (m2\<lparr>s := t\<rparr>))
             | _ \<Rightarrow> Inl (Panicked, m2))
        | _ \<Rightarrow> Inl (Panicked, m1)
      else Inr m)"

definition doLoop :: "interp \<Rightarrow> interp" where
  "doLoop m =
     (let m1 = push m (CStr (s m));
          m2 = push m1 (CInt (int (pos m1)))
      in m2\<lparr>sp := sp m2 + 2\<rparr>)"

definition untilLoop :: "nat \<Rightarrow> interp \<Rightarrow> (stop + interp) option" where
  "untilLoop n m =
     (if 2 \<le> sp m then
        let m1 = m\<lparr>sp := sp m - 2\<rparr> in
        case cellAt (stack m1) (sp m1 + 1) of
          Some (CInt savedPos) \<Rightarrow>
            (case cellAt (stack m1) (sp m1) of
               Some (CStr savedS) \<Rightarrow>
                 bnd (expression n (truncateStack m1))
                   (\<lambda>(v, m2).
                      if v = 0 then
                        let m3 = m2\<lparr>s := savedS, pos := nat savedPos\<rparr>;
                            m4 = push m3 (CStr savedS);
                            m5 = push m4 (CInt savedPos)
                        in Some (Inr (m5\<lparr>sp := sp m5 + 2\<rparr>))
                      else Some (Inr m2))
             | _ \<Rightarrow> Some (Inl (Panicked, m1)))
        | _ \<Rightarrow> Some (Inl (Panicked, m1))
      else Some (Inr m))"

definition nextLoop :: "nat \<Rightarrow> interp \<Rightarrow> (stop + interp) option" where
  "nextLoop n m =
     (if 3 \<le> sp m then
        let m1 = m\<lparr>sp := sp m - 3\<rparr> in
        case cellAt (stack m1) (sp m1 + 2) of
          Some (CI16 toVal) \<Rightarrow>
            (case cellAt (stack m1) (sp m1 + 1) of
               Some (CInt savedPos) \<Rightarrow>
                 (case cellAt (stack m1) (sp m1) of
                    Some (CStr savedS) \<Rightarrow>
                      (case cellAt (stack m1) (sp m1 - 1) of
                         Some (CInt varIdx) \<Rightarrow>
                           bnd (expression n (truncateStack (m1\<lparr>sp := sp m1 - 1\<rparr>)))
                             (\<lambda>(v, m2).
                                if 0 \<le> varIdx \<and> varIdx < 26 then
                                  let m3 = m2\<lparr>variables := (variables m2)(nat varIdx := v)\<rparr> in
                                  if v \<le>s toVal then
                                    let m4 = m3\<lparr>s := savedS, pos := nat savedPos\<rparr>;
                                        m5 = push m4 (CInt varIdx);
                                        m6 = push m5 (CStr savedS);
                                        m7 = push m6 (CInt savedPos);
                                        m8 = push m7 (CI16 toVal)
                                    in Some (Inr (m8\<lparr>sp := sp m8 + 4\<rparr>))
                                  else Some (Inr m3)
                                else Some (Inl (Panicked, m2)))
                       | _ \<Rightarrow> Some (Inl (Panicked, m1)))
                  | _ \<Rightarrow> Some (Inl (Panicked, m1)))
             | _ \<Rightarrow> Some (Inl (Panicked, m1)))
        | _ \<Rightarrow> Some (Inl (Panicked, m1))
      else Some (Inr m))"

definition ifStatement :: "interp \<Rightarrow> int16 \<Rightarrow> interp" where
  "ifStatement m condition =
     (if condition = 0 then (let m1 = skipToNewline m in m1\<lparr>pos := pos m1 - 1\<rparr>) else m)"

subsection \<open>Meta-commands\<close>

text \<open>\<open>loadSource\<close>: the flag is \<open>err != nil\<close>.\<close>

definition loadSource :: "interp \<Rightarrow> string \<Rightarrow> bool \<times> interp" where
  "loadSource m filename =
     (case files m filename of
        None \<Rightarrow> (True, m)
      | Some data \<Rightarrow> (False, m\<lparr>pbuff := data, psize := length data\<rparr>))"

definition loadSourceCommand :: "interp \<Rightarrow> interp option" where
  "loadSourceCommand m =
     (let m1 = skipSpaces m in
      case advanceToNewline m1 of
        None \<Rightarrow> None
      | Some m2 \<Rightarrow> Some (snd (loadSource m2 (slice (s m2) (pos m1) (pos m2)))))"

definition optionalCommand :: "nat \<Rightarrow> interp \<Rightarrow> (stop + interp) option" where
  "optionalCommand n m =
     (let c1 = toUpper (currentChar m);
          m1 = advance m 1;
          c2 = toUpper (currentChar m1);
          m2 = advance m1 1
      in
      if c1 = CHR ''L'' \<and> c2 = CHR ''D'' then map_option Inr (loadSourceCommand m2)
      else if c1 = CHR ''Q'' \<and> c2 = CHR ''U'' then Some (Inl (Exited 0, m2))
      else if c1 = CHR ''T'' \<and> c2 = CHR ''N'' then Some (Inr (m2\<lparr>tron := True\<rparr>))
      else if c1 = CHR ''T'' \<and> c2 = CHR ''F'' then Some (Inr (m2\<lparr>tron := False\<rparr>))
      else if c1 = CHR ''S'' \<and> c2 = CHR ''H'' then
        Some (Inr (print m2 (''Shell command not supported'' @ [NL])))
      else if c1 = CHR ''F'' \<and> c2 = CHR ''M'' then
        bnd (expression n m2) (\<lambda>(v, m3). Some (Inr (m3\<lparr>forMode := sint v\<rparr>)))
      else Some (Inr (syntaxError m2)))"

subsection \<open>Statement dispatcher and execution loop\<close>

text \<open>How one pass of the inner \<open>for\<close> of \<open>run\<close> ends: \<open>continue\<close> or \<open>break\<close>.\<close>

datatype ctl = Continue | Break

text \<open>
  The block \<open>// FOR loop\<close> of the assignment statement: after \<open>,\<close> comes the bound; the
  loop is skipped up to the next \<open>@\<close> when the variable is already past the bound and
  \<open>forMode\<close> is set, and a frame of four cells is pushed otherwise.
\<close>

definition forLoop :: "nat \<Rightarrow> nat \<Rightarrow> interp \<Rightarrow> (stop + interp) option" where
  "forLoop n varIdx m =
     (if currentChar m = CHR '','' then
        bnd (expression n (skipChar m CHR '',''))
          (\<lambda>(toVal, m1).
             let v = variables m1 varIdx in
             if toVal <s v \<and> forMode m1 \<noteq> 0 then
               let m2 = advanceWhile (\<lambda>c. c \<noteq> CHR ''@'' \<and> c \<noteq> NUL) m1 in
               if currentChar m2 = NUL then Some (Inr m2)
               else
                 bnd (expression n (skipChar (skipChar m2 CHR ''@'') CHR ''=''))
                   (\<lambda>(w, m3). Some (Inr m3))
             else
               let m2 = push m1 (CInt (int varIdx));
                   m3 = push m2 (CStr (s m2));
                   m4 = push m3 (CInt (int (pos m3)));
                   m5 = push m4 (CI16 toVal)
               in Some (Inr (m5\<lparr>sp := sp m5 + 4\<rparr>)))
      else Some (Inr m))"

text \<open>The branch \<open>isAlpha(c)\<close> of the dispatcher: an assignment, then \<open>forLoop\<close>.\<close>

definition assignment :: "nat \<Rightarrow> interp \<Rightarrow> (stop + interp) option" where
  "assignment n m =
     (let (varChar, m1) = getVariable m;
          varIdx = varIndex varChar
      in
      bnd
        (if currentChar m1 = CHR '':'' then
           bnd (expression n (advance m1 1))
             (\<lambda>(idx, m2).
                bnd (expression n (skipChar (skipChar m2 CHR '')'') CHR ''=''))
                  (\<lambda>(v, m3). Some (setByteAt m3 (variables m3 varIdx + idx) v)))
         else if currentChar m1 = CHR ''('' then
           bnd (expression n (advance m1 1))
             (\<lambda>(idx, m2).
                bnd (expression n (skipChar (skipChar m2 CHR '')'') CHR ''=''))
                  (\<lambda>(v, m3). Some (setWordAt m3 (variables m3 varIdx + idx * 2) v)))
         else
           bnd (expression n (skipChar m1 CHR ''=''))
             (\<lambda>(v, m2). Some (Inr (m2\<lparr>variables := (variables m2)(varIdx := v)\<rparr>))))
        (\<lambda>m5. forLoop n varIdx m5))"

text \<open>The branch \<open>c == '?'\<close> of the dispatcher, after the \<open>?\<close>.\<close>

definition outputCommand :: "nat \<Rightarrow> interp \<Rightarrow> (stop + ctl \<times> interp) option" where
  "outputCommand n m =
     (let c = currentChar m in
      if c = CHR ''='' then
        bnd (expression n (skipChar m CHR ''=''))
          (\<lambda>(v, m1). Some (Inr (Continue, print m1 (show_int (sint v)))))
      else if c = CHR ''?'' then
        bnd (expression n (skipChar (skipChar m CHR ''?'') CHR ''=''))
          (\<lambda>(v, m1). Some (Inr (Continue, print m1 (show_hex_pad 4 (unat v)))))
      else if c = CHR ''$'' then
        bnd (expression n (skipChar (skipChar m CHR ''$'') CHR ''=''))
          (\<lambda>(v, m1). Some (Inr (Continue, print m1 (show_hex_pad 2 (unat (ucast v :: byte))))))
      else if c = CHR ''('' then
        bnd (expression n (skipChar m CHR ''(''))
          (\<lambda>(width, m1).
             bnd (expression n (skipChar (skipChar m1 CHR '')'') CHR ''=''))
               (\<lambda>(v, m2). Some (Inr (Continue, print m2 (show_width (sint width) (sint v))))))
      else Some (Inl (Returned, syntaxError m)))"

text \<open>One pass of the inner \<open>for\<close> of \<open>run\<close>: the statement at the cursor.\<close>

definition statement :: "nat \<Rightarrow> interp \<Rightarrow> (stop + ctl \<times> interp) option" where
  "statement n m =
     (let c = currentChar m in
      if c = NUL then Some (Inl (Returned, m))
      else if c = NL then Some (Inr (Break, advance m 1))
      else if c = CHR '' '' then Some (Inr (Continue, skipSpaces m))
      else if c = CHR 0x22 then
        (let (str, m1) = getString m in Some (Inr (Continue, print m1 str)))
      else if c = CHR ''/'' then Some (Inr (Continue, print (skipChar m CHR ''/'') [NL]))
      else if c = CHR ''.'' then
        bnd (expression n (skipChar (skipChar m CHR ''.'') CHR ''=''))
          (\<lambda>(v, m1). Some (Inr (Continue, print m1 (replicate (nat (sint v)) CHR '' ''))))
      else if c = CHR ''*'' then
        bnd (optionalCommand n (advance m 1)) (\<lambda>m1. Some (Inr (Continue, m1)))
      else if c = CHR ''?'' then outputCommand n (advance m 1)
      else if c = CHR 0x27 then
        bnd (expression n (skipChar (advance m 1) CHR ''=''))
          (\<lambda>(v, m1). Some (Inr (Continue, m1\<lparr>seed := sint v\<rparr>)))
      else if c = CHR ''$'' then
        bnd (expression n (skipChar (advance m 1) CHR ''=''))
          (\<lambda>(v, m1). Some (Inr (Continue, print m1 (show_rune (ucast v)))))
      else if c = CHR ''#'' then
        bnd (expression n (skipChar (advance m 1) CHR ''=''))
          (\<lambda>(v, m1). map_option (\<lambda>m2. Inr (Break, m2)) (gotoLine m1 v))
      else if c = CHR ''!'' then
        bnd (expression n (skipChar (advance m 1) CHR ''=''))
          (\<lambda>(v, m1). map_option (\<lambda>m2. Inr (Break, m2)) (gosub m1 v))
      else if c = CHR '']'' then
        (case returnFromSub (advance m 1) of
           Inl e \<Rightarrow> Some (Inl e)
         | Inr m1 \<Rightarrow> Some (Inr (Continue, m1)))
      else if c = CHR ''@'' then
        (let m1 = advance m 1 in
         if currentChar m1 = CHR ''='' then
           (let m2 = skipChar m1 CHR ''='' in
            if currentChar m2 = CHR ''('' then
              bnd (untilLoop n m2) (\<lambda>m3. Some (Inr (Continue, m3)))
            else bnd (nextLoop n m2) (\<lambda>m3. Some (Inr (Continue, m3))))
         else Some (Inr (Continue, doLoop m1)))
      else if c = CHR '';'' then
        bnd (expression n (skipChar (advance m 1) CHR ''=''))
          (\<lambda>(v, m1). Some (Inr (Continue, ifStatement m1 v)))
      else if isAlpha c then bnd (assignment n m) (\<lambda>m1. Some (Inr (Continue, m1)))
      else Some (Inl (Returned, syntaxError m)))"

text \<open>The inner \<open>for\<close> of \<open>run\<close>: statements until one breaks out of it or ends the run.\<close>

fun statements :: "nat \<Rightarrow> interp \<Rightarrow> (stop + interp) option" where
  "statements 0 m = None"
| "statements (Suc n) m =
     bnd (statement n m)
       (\<lambda>(c, m1). case c of Continue \<Rightarrow> statements n m1 | Break \<Rightarrow> Some (Inr m1))"

declare statements.simps(2) [simp del]

text \<open>
  One pass of the outer \<open>for\<close> of \<open>run\<close>: the tests for the end, the line number, the
  statements of the line.
\<close>

definition line :: "nat \<Rightarrow> interp \<Rightarrow> (stop + interp) option" where
  "line n m =
     (if currentChar m = NUL then Some (Inl (Returned, m))
      else if ln m = - 1 then Some (Inl (Returned, m))
      else if ln m \<noteq> 0 then
        (let (v, m1) = getDecimalValue m;
             m2 = (if tron m1 then print m1 (''['' @ show_int (sint v) @ '']'') else m1);
             m3 = m2\<lparr>ln := sint v\<rparr>
         in if currentChar m3 \<noteq> CHR '' '' then Some (Inr (skipToNewline m3))
            else statements n m3)
      else statements n m)"

fun run :: "nat \<Rightarrow> interp \<Rightarrow> stop option" where
  "run 0 m = None"
| "run (Suc n) m =
     (case line n m of
        None \<Rightarrow> None
      | Some (Inl e) \<Rightarrow> Some e
      | Some (Inr m1) \<Rightarrow> run n m1)"

declare run.simps(2) [simp del]

text \<open>
  \<open>main\<close>, given \<open>os.Args\<close> and a fresh interpreter. The text of the load error, which the
  operating system words, is left out of the message.
\<close>

definition main :: "nat \<Rightarrow> string list \<Rightarrow> interp \<Rightarrow> stop option" where
  "main n args m0 =
     (if 2 \<le> length args then
        (case loadSource m0 (args ! 1) of
           (True, m) \<Rightarrow> Some (Exited 1, print m (''Error loading file: '' @ [NL]))
         | (False, m) \<Rightarrow>
             (case gotoLine m 1 of None \<Rightarrow> None | Some m1 \<Rightarrow> run n m1))
      else Some (Returned, print m0 (''Usage: miep file'' @ [NL])))"

text \<open>The interpreter at the start of \<open>run\<close> for a program text, as \<open>main\<close> sets it up.\<close>

definition start :: "string \<Rightarrow> interp option" where
  "start prog = gotoLine ((NewInterpreter [] (\<lambda>f. None) [])\<lparr>pbuff := prog, psize := length prog\<rparr>) 1"

definition exec :: "nat \<Rightarrow> string \<Rightarrow> stop option" where
  "exec n prog = (case start prog of None \<Rightarrow> None | Some m \<Rightarrow> run n m)"

text \<open>What a run shows to the outside: how it ended and what it printed.\<close>

definition observe :: "stop option \<Rightarrow> (outcome \<times> string) option" where
  "observe r = map_option (\<lambda>(x, m). (x, out m)) r"

section \<open>Evaluation rules\<close>

text \<open>
  Concrete runs are computed by the simplifier from the defining equations. The recursive
  equations are used at numerals of fuel, and the weak congruence rules keep the
  simplifier out of the branches and continuations that are not yet reached.
\<close>

lemma bnd_simps:
  "bnd None f = None"
  "bnd (Some (Inl e)) f = Some (Inl e)"
  "bnd (Some (Inr x)) f = f x"
  by (simp_all add: bnd_def)

lemma bnd_weak_cong: "r = r' \<Longrightarrow> bnd r f = bnd r' f"
  by simp

lemmas term'_numeral = term'.simps(2) [of "pred_numeral k" for k, folded numeral_eq_Suc]
lemmas expression_numeral = expression.simps(2) [of "pred_numeral k" for k, folded numeral_eq_Suc]
lemmas expression_loop_numeral =
  expression_loop.simps(2) [of "pred_numeral k" for k, folded numeral_eq_Suc]
lemmas statements_numeral = statements.simps(2) [of "pred_numeral k" for k, folded numeral_eq_Suc]
lemmas run_numeral = run.simps(2) [of "pred_numeral k" for k, folded numeral_eq_Suc]
lemmas replicate_numeral = replicate.simps(2) [of "pred_numeral k" for k, folded numeral_eq_Suc]

lemmas lex_defs = skipSpaces_def advanceWhile.simps currentChar_def advance_def peek_def
  skipChar_def getVariable_def getConstant_def getDecimalValue_def getHexValue_def getString_def
  getOperator1_def getOperator2_def isAlpha_def isDigit_def isXDigit_def toUpper_def varIndex_def
  code_def Atoi_def parseInt_def parseUint_def digitVal_def slice_def NUL_def NL_def

lemmas expr_defs = term'_numeral expression_numeral expression_loop_numeral bnd_simps applyOp_def
  applyUnary_def div16_def rem16_def flag_def mem_index_def byteAt_def wordAt_def setByteAt_def
  setWordAt_def print_def syntaxError_def
  word_sle_eq word_sless_alt signed_divide_int_def signed_modulo_int_def

lemmas show_defs = replicate_numeral bit_Suc_0_iff unsigned_minus_1_eq_mask mask_eq_exp_minus_1
  char_of_def show_int_def show_nat.simps show_hex.simps show_hex_pad_def show_width_def
  show_rune_def digit_char_def

lemmas flow_defs = skipToNewline_def advanceToNewline.simps searchLine_loop.simps searchLine_def
  gotoLine_def push_def cellAt_def truncateStack_def gosub_def returnFromSub_def doLoop_def
  untilLoop_def nextLoop_def ifStatement_def loadSource_def loadSourceCommand_def
  optionalCommand_def

lemmas run_defs = forLoop_def assignment_def outputCommand_def statement_def statements_numeral
  line_def run_numeral start_def exec_def NewInterpreter_def observe_def

lemmas eval_defs = lex_defs expr_defs show_defs flow_defs run_defs Let_def

lemmas eval_congs = let_weak_cong bnd_weak_cong prod.case_cong_weak option.case_cong_weak
  sum.case_cong_weak

section \<open>Frame and fuel\<close>

lemma currentChar_advance: "currentChar (advance m k) = peek m k"
  by (simp add: currentChar_def advance_def peek_def)

lemma advance_advance: "advance (advance m j) k = advance m (j + k)"
  by (simp add: advance_def)

lemma peek_advance: "peek (advance m j) k = peek m (j + k)"
  by (simp add: peek_def advance_def add.assoc)

lemma sp_advance: "sp (advance m k) = sp m"
  by (simp add: advance_def)

text \<open>
  The part of the interpreter the expression evaluator never writes, and the same with the
  remainder register, which only a division writes.
\<close>

definition ctx :: "interp \<Rightarrow> (nat \<Rightarrow> int16) \<times> (int \<Rightarrow> byte) \<times> string \<times> nat \<times> string \<times> int
    \<times> cell list \<times> int \<times> bool \<times> int \<times> (string \<Rightarrow> string option) \<times> int" where
  "ctx m = (variables m, memory m, pbuff m, psize m, s m, ln m, stack m, sp m, tron m, forMode m,
     files m, seed m)"

definition ctx_mod :: "interp \<Rightarrow> ((nat \<Rightarrow> int16) \<times> (int \<Rightarrow> byte) \<times> string \<times> nat \<times> string \<times> int
    \<times> cell list \<times> int \<times> bool \<times> int \<times> (string \<Rightarrow> string option) \<times> int) \<times> int16" where
  "ctx_mod m = (ctx m, mod_reg m)"

definition state_of :: "stop + int16 \<times> interp \<Rightarrow> interp" where
  "state_of r = (case r of Inl e \<Rightarrow> snd e | Inr x \<Rightarrow> snd x)"

lemma state_of_simps [simp]: "state_of (Inl e) = snd e" "state_of (Inr x) = snd x"
  by (simp_all add: state_of_def)

lemma ctx_of_ctx_mod: "ctx_mod a = ctx_mod b \<Longrightarrow> ctx a = ctx b"
  by (simp add: ctx_mod_def)

lemma mod_of_ctx_mod: "ctx_mod a = ctx_mod b \<Longrightarrow> mod_reg a = mod_reg b"
  by (simp add: ctx_mod_def)

lemma s_of_ctx_mod: "ctx_mod a = ctx_mod b \<Longrightarrow> s a = s b"
  by (simp add: ctx_mod_def ctx_def)

lemma s_of_ctx: "ctx a = ctx b \<Longrightarrow> s a = s b"
  by (simp add: ctx_def)

lemma ctx_mod_advance: "ctx_mod (advance m k) = ctx_mod m"
  by (simp add: ctx_mod_def ctx_def advance_def)

lemma ctx_mod_advanceWhile: "ctx_mod (advanceWhile p m) = ctx_mod m"
proof (induction p m rule: advanceWhile.induct)
  case (1 p m)
  show ?case
  proof (cases "pos m < length (s m) \<and> p (currentChar m)")
    case True
    then show ?thesis using "1.IH" by (simp add: advanceWhile_step ctx_mod_advance)
  next
    case False
    then show ?thesis by (simp add: advanceWhile_stop)
  qed
qed

lemma ctx_mod_print: "ctx_mod (print m txt) = ctx_mod m"
  by (simp add: ctx_mod_def ctx_def print_def)

lemma ctx_mod_syntaxError: "ctx_mod (syntaxError m) = ctx_mod m"
  by (simp add: syntaxError_def ctx_mod_print)

lemma ctx_mod_skipChar: "ctx_mod (skipChar m c) = ctx_mod m"
  by (simp add: skipChar_def ctx_mod_advance ctx_mod_syntaxError)

lemma ctx_mod_skipSpaces: "ctx_mod (skipSpaces m) = ctx_mod m"
  by (simp add: skipSpaces_def ctx_mod_advanceWhile)

lemma ctx_mod_getVariable: "ctx_mod (snd (getVariable m)) = ctx_mod m"
  by (simp add: getVariable_def ctx_mod_advanceWhile)

lemma ctx_mod_getOperator1: "ctx_mod (snd (getOperator1 m)) = ctx_mod m"
  by (simp add: getOperator1_def Let_def ctx_mod_advance)

lemma ctx_mod_getOperator2: "ctx_mod (snd (getOperator2 m)) = ctx_mod m"
  by (simp add: getOperator2_def Let_def ctx_mod_advance)

lemma ctx_mod_getHexValue: "ctx_mod (snd (getHexValue m)) = ctx_mod m"
  by (simp add: getHexValue_def Let_def ctx_mod_advanceWhile)

lemma ctx_mod_getDecimalValue: "ctx_mod (snd (getDecimalValue m)) = ctx_mod m"
  by (simp add: getDecimalValue_def Let_def ctx_mod_advanceWhile)

lemma ctx_mod_getString: "ctx_mod (snd (getString m)) = ctx_mod m"
  by (simp add: getString_def Let_def ctx_mod_advanceWhile ctx_mod_skipChar)

lemma ctx_mod_getConstant: "ctx_mod (snd (getConstant m)) = ctx_mod m"
  by (simp add: getConstant_def Let_def split_beta ctx_mod_getString ctx_mod_getHexValue
      ctx_mod_getDecimalValue ctx_mod_skipChar)

lemma ctx_mod_ReadByte: "ctx_mod (snd (ReadByte m)) = ctx_mod m"
  by (simp add: ReadByte_def ctx_mod_def ctx_def split: list.splits)

lemma ctx_mod_ReadString: "ctx_mod (snd (ReadString m)) = ctx_mod m"
  by (simp add: ReadString_def ctx_mod_def ctx_def Let_def split: list.splits)

lemma ctx_mod_Intn: "ctx_mod (snd (Intn m k)) = ctx_mod m"
  by (simp add: Intn_def ctx_mod_def ctx_def split: list.splits)

lemma ctx_mod_applyUnary: "ctx_mod (snd (applyUnary c v m)) = ctx_mod m"
  by (simp add: applyUnary_def split_beta ctx_mod_Intn)

lemma ctx_mod_byteAt: "ctx_mod (state_of (byteAt m i)) = ctx_mod m"
  by (simp add: byteAt_def split: option.splits)

lemma ctx_mod_wordAt: "ctx_mod (state_of (wordAt m i)) = ctx_mod m"
  by (simp add: wordAt_def split: option.splits)

lemmas ctx_mod_prims = ctx_mod_advance ctx_mod_advanceWhile ctx_mod_print ctx_mod_syntaxError
  ctx_mod_skipChar ctx_mod_skipSpaces ctx_mod_getVariable ctx_mod_getOperator1
  ctx_mod_getOperator2 ctx_mod_getHexValue ctx_mod_getDecimalValue ctx_mod_getString
  ctx_mod_getConstant ctx_mod_ReadByte ctx_mod_ReadString ctx_mod_Intn ctx_mod_applyUnary
  ctx_mod_byteAt ctx_mod_wordAt

lemmas ctx_prims = ctx_mod_prims [THEN ctx_of_ctx_mod]
lemmas mod_prims = ctx_mod_prims [THEN mod_of_ctx_mod]
lemmas s_prims = ctx_mod_prims [THEN s_of_ctx_mod]

lemma ctx_applyOp: "ctx (snd (applyOp c v w m)) = ctx m"
  by (simp add: applyOp_def) (simp add: ctx_def print_def)

lemma mod_applyOp: "c \<noteq> CHR ''/'' \<Longrightarrow> mod_reg (snd (applyOp c v w m)) = mod_reg m"
  by (simp add: applyOp_def)

lemma s_applyOp: "s (snd (applyOp c v w m)) = s m"
  by (rule s_of_ctx [OF ctx_applyOp])

lemma currentChar_in_set: "currentChar m \<noteq> NUL \<Longrightarrow> currentChar m \<in> set (s m)"
  by (auto simp: currentChar_def split: if_splits)

lemma getOperator2_slash:
  assumes "fst (getOperator2 m) = CHR ''/''"
  shows "CHR ''/'' \<in> set (s m)"
proof -
  have "currentChar m = CHR ''/''"
    using assms by (auto simp: getOperator2_def Let_def NUL_def split: if_splits)
  then show ?thesis
    using currentChar_in_set [of m] by (simp add: NUL_def)
qed

lemma mod_applyOp_getOperator2:
  "CHR ''/'' \<notin> set (s m0) \<Longrightarrow>
     mod_reg (snd (applyOp (fst (getOperator2 m0)) v w m)) = mod_reg m"
  using getOperator2_slash [of m0] by (intro mod_applyOp) blast

lemma bnd_eq_Some:
  "bnd r f = Some y \<longleftrightarrow>
     (\<exists>e. r = Some (Inl e) \<and> y = Inl e) \<or> (\<exists>x. r = Some (Inr x) \<and> f x = Some y)"
  by (auto simp: bnd_def split: option.splits sum.splits)

text \<open>
  An expression moves the cursor, prints, reads input and draws random numbers; it writes
  the remainder register only when its text has a \<open>/\<close>; it writes nothing else.
\<close>

definition kept :: "interp \<Rightarrow> interp \<Rightarrow> bool" where
  "kept m m' = (ctx m' = ctx m \<and> s m' = s m \<and> (CHR ''/'' \<notin> set (s m) \<longrightarrow> mod_reg m' = mod_reg m))"

lemma frame_expression:
  "(\<forall>m r. term' n m = Some r \<longrightarrow> kept m (state_of r))
   \<and> (\<forall>m r. expression n m = Some r \<longrightarrow> kept m (state_of r))
   \<and> (\<forall>v m r. expression_loop n v m = Some r \<longrightarrow> kept m (state_of r))"
proof (induction n)
  case 0
  show ?case by simp
next
  case (Suc n)
  have t: "kept m (state_of r)" if "term' n m = Some r" for m r
    using Suc that by blast
  have e: "kept m (state_of r)" if "expression n m = Some r" for m r
    using Suc that by blast
  have l: "kept m (state_of r)" if "expression_loop n v m = Some r" for v m r
    using Suc that by blast
  have 1: "kept m (state_of r)" if "term' (Suc n) m = Some r" for m r
    using that
    by (auto simp: term'.simps(2) Let_def split_beta bnd_eq_Some kept_def ctx_prims mod_prims
        s_prims split: if_splits option.splits dest!: t e)
  have 2: "kept m (state_of r)" if "expression (Suc n) m = Some r" for m r
    using that
    by (auto simp: expression.simps(2) Let_def split_beta bnd_eq_Some kept_def ctx_prims
        mod_prims s_prims split: if_splits option.splits dest!: t l)
  have 3: "kept m (state_of r)" if "expression_loop (Suc n) v m = Some r" for v m r
    using that
    by (auto simp: expression_loop.simps(2) Let_def split_beta bnd_eq_Some kept_def ctx_prims
        mod_prims s_prims ctx_applyOp mod_applyOp_getOperator2 s_applyOp
        split: if_splits option.splits dest!: t l)
  show ?case using 1 2 3 by blast
qed

text \<open>More fuel never changes a result that was reached.\<close>

definition le_res :: "'a option \<Rightarrow> 'a option \<Rightarrow> bool" where
  "le_res a b = (a = None \<or> a = b)"

lemma le_res_refl [simp]: "le_res a a"
  by (simp add: le_res_def)

lemma le_res_None [simp]: "le_res None b"
  by (simp add: le_res_def)

lemma le_res_Some: "le_res a b \<Longrightarrow> a = Some x \<Longrightarrow> b = Some x"
  by (auto simp: le_res_def)

lemma le_res_trans: "le_res a b \<Longrightarrow> le_res b c \<Longrightarrow> le_res a c"
  by (auto simp: le_res_def)

lemma bnd_le:
  assumes "le_res a a'" and "\<And>x. le_res (f x) (f' x)"
  shows "le_res (bnd a f) (bnd a' f')"
  using assms by (auto simp: le_res_def bnd_def split: option.splits sum.splits)

lemma fuel_expression_step:
  "(\<forall>m. le_res (term' n m) (term' (Suc n) m))
   \<and> (\<forall>m. le_res (expression n m) (expression (Suc n) m))
   \<and> (\<forall>v m. le_res (expression_loop n v m) (expression_loop (Suc n) v m))"
proof (induction n)
  case 0
  show ?case by simp
next
  case (Suc n)
  have t: "le_res (term' n m) (term' (Suc n) m)" for m
    using Suc by blast
  have e: "le_res (expression n m) (expression (Suc n) m)" for m
    using Suc by blast
  have l: "le_res (expression_loop n v m) (expression_loop (Suc n) v m)" for v m
    using Suc by blast
  have 1: "le_res (term' (Suc n) m) (term' (Suc (Suc n)) m)" for m
    apply (subst term'.simps(2) [of n])
    apply (subst term'.simps(2) [of "Suc n"])
    apply (auto simp: Let_def split_beta intro!: bnd_le t e)
    done
  have 2: "le_res (expression (Suc n) m) (expression (Suc (Suc n)) m)" for m
    apply (subst expression.simps(2) [of n])
    apply (subst expression.simps(2) [of "Suc n"])
    apply (auto simp: Let_def split_beta intro!: bnd_le t l)
    done
  have 3: "le_res (expression_loop (Suc n) v m) (expression_loop (Suc (Suc n)) v m)" for v m
    apply (subst expression_loop.simps(2) [of n])
    apply (subst expression_loop.simps(2) [of "Suc n"])
    apply (auto simp: Let_def split_beta intro!: bnd_le t l)
    done
  show ?case using 1 2 3 by blast
qed

lemma le_res_chain:
  assumes "\<And>i. le_res (f i) (f (Suc i))" and "n \<le> k"
  shows "le_res (f n) (f k)"
  using assms(2)
proof (induction k)
  case 0
  then show ?case by simp
next
  case (Suc k)
  show ?case
  proof (cases "n = Suc k")
    case True
    then show ?thesis by simp
  next
    case False
    then have "le_res (f n) (f k)"
      using Suc by simp
    then show ?thesis
      using assms(1) [of k] by (rule le_res_trans)
  qed
qed

lemma fuel_term'_Suc: "le_res (term' n m) (term' (Suc n) m)"
  using fuel_expression_step by blast

lemma fuel_expression_Suc: "le_res (expression n m) (expression (Suc n) m)"
  using fuel_expression_step by blast

lemma fuel_expression: "n \<le> k \<Longrightarrow> le_res (expression n m) (expression k m)"
  by (rule le_res_chain [where f = "\<lambda>i. expression i m"]) (simp_all add: fuel_expression_Suc)

lemma fuel_untilLoop: "le_res (untilLoop n m) (untilLoop (Suc n) m)"
  by (auto simp: untilLoop_def Let_def split: option.splits cell.splits
      intro!: bnd_le fuel_expression_Suc)

lemma fuel_nextLoop: "le_res (nextLoop n m) (nextLoop (Suc n) m)"
  by (auto simp: nextLoop_def Let_def split: option.splits cell.splits
      intro!: bnd_le fuel_expression_Suc)

lemma fuel_optionalCommand: "le_res (optionalCommand n m) (optionalCommand (Suc n) m)"
  by (auto simp: optionalCommand_def Let_def intro!: bnd_le fuel_expression_Suc)

lemma fuel_forLoop: "le_res (forLoop n i m) (forLoop (Suc n) i m)"
  by (auto simp: forLoop_def Let_def split_beta intro!: bnd_le fuel_expression_Suc)

lemma fuel_assignment: "le_res (assignment n m) (assignment (Suc n) m)"
  by (auto simp: assignment_def Let_def split_beta intro!: bnd_le fuel_expression_Suc fuel_forLoop)

lemma fuel_outputCommand: "le_res (outputCommand n m) (outputCommand (Suc n) m)"
  by (auto simp: outputCommand_def Let_def split_beta intro!: bnd_le fuel_expression_Suc)

lemma fuel_statement: "le_res (statement n m) (statement (Suc n) m)"
  by (auto simp: statement_def Let_def split_beta split: sum.splits
      intro!: bnd_le fuel_expression_Suc fuel_optionalCommand fuel_outputCommand fuel_untilLoop
        fuel_nextLoop fuel_assignment)

lemma fuel_statements: "le_res (statements n m) (statements (Suc n) m)"
proof (induction n arbitrary: m)
  case 0
  show ?case by simp
next
  case (Suc n)
  show ?case
    apply (subst statements.simps(2) [of n])
    apply (subst statements.simps(2) [of "Suc n"])
    apply (auto simp: split_beta split: ctl.splits
        intro!: bnd_le fuel_statement Suc)
    done
qed

lemma fuel_line: "le_res (line n m) (line (Suc n) m)"
  by (auto simp: line_def Let_def split_beta intro!: fuel_statements)

lemma fuel_run_Suc: "le_res (run n m) (run (Suc n) m)"
proof (induction n arbitrary: m)
  case 0
  show ?case by simp
next
  case (Suc n)
  show ?case
  proof (cases "line n m")
    case None
    then have "run (Suc n) m = None"
      by (simp add: run.simps(2))
    then show ?thesis by simp
  next
    case (Some x)
    have x: "line (Suc n) m = Some x"
      by (rule le_res_Some [OF fuel_line Some])
    show ?thesis
      apply (subst run.simps(2) [of n])
      apply (subst run.simps(2) [of "Suc n"])
      apply (simp only: Some x option.case)
      apply (cases x)
       apply (simp_all add: Suc.IH)
      done
  qed
qed

lemma fuel_run: "n \<le> k \<Longrightarrow> run n m = Some r \<Longrightarrow> run k m = Some r"
  by (rule le_res_Some [OF le_res_chain [where f = "\<lambda>i. run i m", OF fuel_run_Suc]])

lemma fuel_exec: "n \<le> k \<Longrightarrow> exec n prog = Some r \<Longrightarrow> exec k prog = Some r"
  by (auto simp: exec_def split: option.splits intro: fuel_run)

lemma exec_deterministic:
  assumes "exec n prog = Some r" and "exec k prog = Some r'"
  shows "r = r'"
proof (cases "n \<le> k")
  case True
  then show ?thesis using assms fuel_exec by fastforce
next
  case False
  then have "k \<le> n" by simp
  then show ?thesis using assms fuel_exec by fastforce
qed

section \<open>The end-to-end scenario\<close>

text \<open>
  The program of the scenario as the spec writes it, and the same statements separated by
  spaces.
\<close>

definition scenario :: string where
  "scenario = ''10 A=5/A=A*2??=A/'' @ [NL] @ ''20 *QU''"

definition scenario_spaced :: string where
  "scenario_spaced = ''10 A=5 /A=A*2 ??=A /'' @ [NL] @ ''20 *QU''"

text \<open>
  C9, as the spec states it, fails: in \<open>A=5/A=A*2??=A/\<close> every \<open>/\<close> directly follows an
  expression, so \<open>expression\<close> takes it as the division operator and not as the newline
  statement. The run divides by zero twice and prints \<open>ffff\<close>, not \<open>000a\<close>.
\<close>

theorem scenario_as_written_counterexample:
  "observe (exec 20 scenario) =
     Some (Exited 0, ''Division by zero'' @ [NL] @ ''Division by zero'' @ [NL] @ ''ffff'')
   \<and> observe (exec 20 scenario) \<noteq> Some (Exited 0, ''000a'')"
  by (simp add: scenario_def eval_defs cong: eval_congs)

text \<open>
  C9, amended: with the statements separated by spaces the program prints a newline, the
  four hexadecimal digits \<open>000a\<close> of 10 and a newline, and \<open>*QU\<close> exits with status 0;
  written without the spaces it prints two division-by-zero messages and \<open>ffff\<close> before
  it exits with status 0.
\<close>

theorem scenario_spaced_prints_000a:
  "observe (exec 20 scenario_spaced) = Some (Exited 0, [NL] @ ''000a'' @ [NL])
   \<and> observe (exec 20 scenario) =
     Some (Exited 0, ''Division by zero'' @ [NL] @ ''Division by zero'' @ [NL] @ ''ffff'')"
  by (simp add: scenario_def scenario_spaced_def eval_defs cong: eval_congs)

section \<open>Meta-commands that are none of the six\<close>

text \<open>The two letters after \<open>*\<close>, in upper case, form one of LD, QU, TN, TF, SH, FM.\<close>

definition known_meta :: "char \<Rightarrow> char \<Rightarrow> bool" where
  "known_meta c1 c2 =
     ((c1 = CHR ''L'' \<and> c2 = CHR ''D'') \<or> (c1 = CHR ''Q'' \<and> c2 = CHR ''U'')
      \<or> (c1 = CHR ''T'' \<and> c2 = CHR ''N'') \<or> (c1 = CHR ''T'' \<and> c2 = CHR ''F'')
      \<or> (c1 = CHR ''S'' \<and> c2 = CHR ''H'') \<or> (c1 = CHR ''F'' \<and> c2 = CHR ''M''))"

definition unknown_meta_program :: string where
  \<open>unknown_meta_program = ''10 *XX "hi"''\<close>

lemma optionalCommand_unknown:
  assumes "\<not> known_meta (toUpper (currentChar m)) (toUpper (peek m 1))"
  shows "optionalCommand n m = Some (Inr (syntaxError (advance m 2)))"
  using assms
  by (auto simp: optionalCommand_def known_meta_def Let_def currentChar_advance advance_advance
      numeral_2_eq_2)

text \<open>
  C5, as the spec states it, fails: \<open>optionalCommand\<close> only prints the syntax error and
  returns, and the dispatcher goes on with the next statement. After \<open>*XX\<close> the string
  statement of the same line still prints \<open>hi\<close>.
\<close>

theorem unknown_meta_counterexample:
  \<open>observe (exec 20 unknown_meta_program) = Some (Returned, [NL] @ ''Syntaxerror in 10'' @ ''hi'')
   \<and> observe (exec 20 unknown_meta_program) \<noteq> Some (Returned, [NL] @ ''Syntaxerror in 10'')\<close>
  by (simp add: unknown_meta_program_def eval_defs cong: eval_congs)

text \<open>
  C5, amended: for a meta-command \<open>*\<close> whose two following characters form none of LD, QU,
  TN, TF, SH, FM, the interpreter consumes the three characters, prints the syntax error
  with the current line number, and the dispatcher continues with the next statement; the
  run is not ended.
\<close>

theorem unknown_meta_reports_and_continues:
  assumes "currentChar m = CHR ''*''"
    and "\<not> known_meta (toUpper (peek m 1)) (toUpper (peek m 2))"
  shows "statement n m = Some (Inr (Continue, syntaxError (advance m 3)))
    \<and> out (syntaxError (advance m 3)) = out m @ [NL] @ ''Syntaxerror in '' @ show_int (ln m)"
proof -
  have "optionalCommand n (advance m 1) = Some (Inr (syntaxError (advance (advance m 1) 2)))"
    using assms(2)
    by (intro optionalCommand_unknown) (simp add: currentChar_advance peek_advance numeral_2_eq_2)
  then have "statement n m = Some (Inr (Continue, syntaxError (advance m 3)))"
    using assms(1)
    by (simp add: statement_def Let_def NUL_def NL_def bnd_simps advance_advance numeral_3_eq_3)
  then show ?thesis
    by (simp add: syntaxError_def print_def advance_def)
qed

definition at_unknown_meta :: interp where
  "at_unknown_meta = (NewInterpreter [] (\<lambda>f. None) [])\<lparr>s := ''10 *ab'', pos := 3, ln := 10\<rparr>"

theorem unknown_meta_reports_and_continues_witness:
  "currentChar at_unknown_meta = CHR ''*''
   \<and> \<not> known_meta (toUpper (peek at_unknown_meta 1)) (toUpper (peek at_unknown_meta 2))
   \<and> statement 1 at_unknown_meta = Some (Inr (Continue, syntaxError (advance at_unknown_meta 3)))
   \<and> out (syntaxError (advance at_unknown_meta 3)) = [NL] @ ''Syntaxerror in 10''"
proof -
  have a: "currentChar at_unknown_meta = CHR ''*''"
    by (simp add: at_unknown_meta_def NewInterpreter_def currentChar_def)
  have b: "\<not> known_meta (toUpper (peek at_unknown_meta 1)) (toUpper (peek at_unknown_meta 2))"
    by (simp add: at_unknown_meta_def NewInterpreter_def peek_def known_meta_def toUpper_def
        code_def char_of_def)
  have c: "out at_unknown_meta @ [NL] @ ''Syntaxerror in '' @ show_int (ln at_unknown_meta)
      = [NL] @ ''Syntaxerror in 10''"
    by (simp add: at_unknown_meta_def NewInterpreter_def show_defs)
  show ?thesis
    using unknown_meta_reports_and_continues [OF a b, of 1] a b c by simp
qed

section \<open>RETURN, UNTIL and loop-step on a stack that is too short\<close>

definition until_underflow_program :: string where
  "until_underflow_program = ''10 @=(1)''"

definition next_underflow_program :: string where
  "next_underflow_program = ''10 @=I+1 ?=I''"

text \<open>The value a run leaves in the variable of index \<open>i\<close>.\<close>

definition variable_after :: "nat \<Rightarrow> stop option \<Rightarrow> int16 option" where
  "variable_after i r = map_option (\<lambda>(x, m). variables m i) r"

text \<open>
  C2, as the spec states it, fails for UNTIL and for the loop-step. \<open>untilLoop\<close> and
  \<open>nextLoop\<close> return at once when the stack is too short, so the expression after
  \<open>@=\<close> is not consumed and the dispatcher reads it as the next statement. For UNTIL that
  is the \<open>(\<close>, which no statement begins with: the syntax error is printed and the run
  ends. For the loop-step \<open>@=I+1\<close> the dispatcher reads \<open>I+1\<close> as an assignment with its
  \<open>=\<close> missing: it prints the syntax error and stores 1 in \<open>I\<close>.
\<close>

theorem underflow_not_silent_counterexample:
  "observe (exec 20 until_underflow_program) = Some (Returned, [NL] @ ''Syntaxerror in 10'')
   \<and> observe (exec 20 next_underflow_program) = Some (Returned, [NL] @ ''Syntaxerror in 10'' @ ''1'')
   \<and> variable_after 8 (exec 20 next_underflow_program) = Some 1"
  by (simp add: until_underflow_program_def next_underflow_program_def variable_after_def
      eval_defs cong: eval_congs)

lemma returnFromSub_underflow: "sp m < 2 \<Longrightarrow> returnFromSub m = Inr m"
  by (simp add: returnFromSub_def)

lemma untilLoop_underflow: "sp m < 2 \<Longrightarrow> untilLoop n m = Some (Inr m)"
  by (simp add: untilLoop_def)

lemma nextLoop_underflow: "sp m < 3 \<Longrightarrow> nextLoop n m = Some (Inr m)"
  by (simp add: nextLoop_def)

lemma statement_return_underflow:
  assumes "currentChar m = CHR '']''" and "sp m < 2"
  shows "statement n m = Some (Inr (Continue, advance m 1))"
  using assms
  by (simp add: statement_def Let_def NUL_def NL_def returnFromSub_underflow sp_advance)

lemma statement_until_underflow:
  assumes "currentChar m = CHR ''@''" and "peek m 1 = CHR ''=''" and "peek m 2 = CHR ''(''"
    and "sp m < 2"
  shows "statement n m = Some (Inr (Continue, advance m 2))"
  using assms
  by (simp add: statement_def Let_def NUL_def NL_def currentChar_advance skipChar_def
      advance_advance untilLoop_underflow sp_advance bnd_simps numeral_2_eq_2)

lemma statement_next_underflow:
  assumes "currentChar m = CHR ''@''" and "peek m 1 = CHR ''=''" and "peek m 2 \<noteq> CHR ''(''"
    and "sp m < 3"
  shows "statement n m = Some (Inr (Continue, advance m 2))"
  using assms
  by (simp add: statement_def Let_def NUL_def NL_def currentChar_advance skipChar_def
      advance_advance nextLoop_underflow sp_advance bnd_simps numeral_2_eq_2)

text \<open>
  C2, amended: in every interpreter state, RETURN with fewer than two cells on the stack
  is a silent no-op, only the \<open>]\<close> is consumed. UNTIL with fewer than two cells and the
  loop-step with fewer than three pop nothing, print nothing and change nothing, and the
  statement consumes only \<open>@=\<close>: the expression that follows stays in front of the cursor
  for the dispatcher.
\<close>

theorem underflow_handlers_change_nothing:
  "(currentChar m = CHR '']'' \<and> sp m < 2 \<longrightarrow>
      statement n m = Some (Inr (Continue, advance m 1)))
   \<and> (currentChar m = CHR ''@'' \<and> peek m 1 = CHR ''='' \<and> peek m 2 = CHR ''('' \<and> sp m < 2 \<longrightarrow>
      statement n m = Some (Inr (Continue, advance m 2)))
   \<and> (currentChar m = CHR ''@'' \<and> peek m 1 = CHR ''='' \<and> peek m 2 \<noteq> CHR ''('' \<and> sp m < 3 \<longrightarrow>
      statement n m = Some (Inr (Continue, advance m 2)))
   \<and> (sp m < 2 \<longrightarrow> returnFromSub m = Inr m \<and> untilLoop n m = Some (Inr m))
   \<and> (sp m < 3 \<longrightarrow> nextLoop n m = Some (Inr m))"
  using statement_return_underflow [of m n] statement_until_underflow [of m n]
    statement_next_underflow [of m n] returnFromSub_underflow [of m] untilLoop_underflow [of m n]
    nextLoop_underflow [of m n]
  by blast

text \<open>States with an empty stack at \<open>]\<close>, at \<open>@=(1)\<close> and at \<open>@=I+1\<close>.\<close>

definition at_text :: "string \<Rightarrow> interp" where
  "at_text txt = (NewInterpreter [] (\<lambda>f. None) [])\<lparr>s := txt\<rparr>"

theorem underflow_handlers_change_nothing_witness:
  "statement 1 (at_text '']'') = Some (Inr (Continue, advance (at_text '']'') 1))
   \<and> statement 1 (at_text ''@=(1)'') = Some (Inr (Continue, advance (at_text ''@=(1)'') 2))
   \<and> statement 1 (at_text ''@=I+1'') = Some (Inr (Continue, advance (at_text ''@=I+1'') 2))
   \<and> returnFromSub (at_text '']'') = Inr (at_text '']'')
   \<and> untilLoop 1 (at_text ''(1)'') = Some (Inr (at_text ''(1)''))
   \<and> nextLoop 1 (at_text ''I+1'') = Some (Inr (at_text ''I+1''))"
proof -
  have a: "currentChar (at_text '']'') = CHR '']'' \<and> sp (at_text '']'') < 2"
    by (simp add: at_text_def NewInterpreter_def currentChar_def)
  have b: "currentChar (at_text ''@=(1)'') = CHR ''@'' \<and> peek (at_text ''@=(1)'') 1 = CHR ''=''
      \<and> peek (at_text ''@=(1)'') 2 = CHR ''('' \<and> sp (at_text ''@=(1)'') < 2"
    by (simp add: at_text_def NewInterpreter_def currentChar_def peek_def)
  have c: "currentChar (at_text ''@=I+1'') = CHR ''@'' \<and> peek (at_text ''@=I+1'') 1 = CHR ''=''
      \<and> peek (at_text ''@=I+1'') 2 \<noteq> CHR ''('' \<and> sp (at_text ''@=I+1'') < 3"
    by (simp add: at_text_def NewInterpreter_def currentChar_def peek_def)
  have d: "sp (at_text '']'') < 2" "sp (at_text ''(1)'') < 2" "sp (at_text ''I+1'') < 3"
    by (simp_all add: at_text_def NewInterpreter_def)
  have 1: "statement 1 (at_text '']'') = Some (Inr (Continue, advance (at_text '']'') 1))"
    using a underflow_handlers_change_nothing [of "at_text '']''" 1] by blast
  have 2: "statement 1 (at_text ''@=(1)'') = Some (Inr (Continue, advance (at_text ''@=(1)'') 2))"
    using b underflow_handlers_change_nothing [of "at_text ''@=(1)''" 1] by blast
  have 3: "statement 1 (at_text ''@=I+1'') = Some (Inr (Continue, advance (at_text ''@=I+1'') 2))"
    using c underflow_handlers_change_nothing [of "at_text ''@=I+1''" 1] by blast
  have 4: "returnFromSub (at_text '']'') = Inr (at_text '']'')"
    using d(1) underflow_handlers_change_nothing [of "at_text '']''" 1] by blast
  have 5: "untilLoop 1 (at_text ''(1)'') = Some (Inr (at_text ''(1)''))"
    using d(2) underflow_handlers_change_nothing [of "at_text ''(1)''" 1] by blast
  have 6: "nextLoop 1 (at_text ''I+1'') = Some (Inr (at_text ''I+1''))"
    using d(3) underflow_handlers_change_nothing [of "at_text ''I+1''" 1] by blast
  show ?thesis
    using 1 2 3 4 5 6 by simp
qed

section \<open>Division and the remainder register\<close>

lemma sint_word_of_int_16:
  "- 32768 \<le> k \<Longrightarrow> k < 32768 \<Longrightarrow> sint (word_of_int k :: int16) = k"
  by (simp add: sint_sbintrunc' signed_take_bit_int_eq_self)

lemma sint_range_16: "- 32768 \<le> sint (v :: int16) \<and> sint v < 32768"
  using sint_ge [of v] sint_lt [of v] by simp

lemma word_of_int_sint_16: "word_of_int (sint w) = (w :: int16)"
  by simp

lemma sint_eq_0_iff: "sint (w :: int16) = 0 \<longleftrightarrow> w = 0"
proof
  assume "sint w = 0"
  then have "word_of_int (sint w) = (0 :: int16)" by simp
  then show "w = 0" by (simp only: word_of_int_sint_16)
qed simp

lemma smod_bounds:
  assumes "(w::int) \<noteq> 0"
  shows "\<bar>k smod w\<bar> < \<bar>w\<bar>" and "0 \<le> k \<Longrightarrow> 0 \<le> k smod w" and "k \<le> 0 \<Longrightarrow> k smod w \<le> 0"
  using assms by (auto simp: signed_modulo_int_def abs_mult sgn_if)

lemma abs_div_le: "\<bar>a\<bar> div \<bar>b\<bar> \<le> \<bar>a::int\<bar>"
proof (cases "a = 0")
  case True
  then show ?thesis by simp
next
  case False
  then have "0 < \<bar>a\<bar>" by simp
  then show ?thesis by (rule int_div_le_self)
qed

lemma abs_sdiv_le: "\<bar>k sdiv w\<bar> \<le> \<bar>k\<bar> div \<bar>w::int\<bar>"
  by (simp add: signed_divide_int_def abs_mult sgn_if pos_imp_zdiv_nonneg_iff)

lemma sdiv_bound: "\<bar>k sdiv w\<bar> \<le> \<bar>k::int\<bar>"
  using abs_sdiv_le [of k w] abs_div_le [of k w] by linarith

lemma sint_rem16:
  assumes "w \<noteq> 0"
  shows "sint (rem16 v w) = sint v smod sint w"
proof -
  have "sint w \<noteq> 0" using assms by (simp add: sint_eq_0_iff)
  then have "\<bar>sint v smod sint w\<bar> < \<bar>sint w\<bar>" by (rule smod_bounds)
  then show ?thesis
    using sint_range_16 [of w] by (auto simp: rem16_def intro!: sint_word_of_int_16)
qed

lemma div16_rem16: "div16 v w * w + rem16 v w = v"
proof -
  have "word_of_int (sint v sdiv sint w * sint w + sint v smod sint w) = (v :: int16)"
    by (simp add: sdiv_mult_smod_eq)
  then show ?thesis
    by (simp add: div16_def rem16_def)
qed

lemma sdiv_minus_32768:
  assumes "(w::int) \<noteq> - 1"
  shows "(- 32768) sdiv w < 32768"
proof (cases "w = 1 \<or> w = 0")
  case True
  then show ?thesis by (auto simp: signed_divide_int_def)
next
  case False
  then have "2 \<le> \<bar>w\<bar>" using assms by linarith
  then have "32768 div \<bar>w\<bar> \<le> 32768 div 2"
    by (intro zdiv_mono2) simp_all
  then have "\<bar>(- 32768) sdiv w\<bar> \<le> 16384"
    using abs_sdiv_le [of "- 32768" w] by simp
  then show ?thesis by linarith
qed

lemma sint_eq_minus_1_iff: "sint (w :: int16) = - 1 \<longleftrightarrow> w = - 1"
proof
  assume "sint w = - 1"
  then have "word_of_int (sint w) = (word_of_int (- 1) :: int16)" by simp
  then show "w = - 1" by (simp only: word_of_int_sint_16) simp
qed simp

lemma sint_div16:
  assumes "\<not> (v = - 32768 \<and> w = - 1)"
  shows "sint (div16 v w) = sint v sdiv sint w"
proof -
  have b: "\<bar>sint v sdiv sint w\<bar> \<le> \<bar>sint v\<bar>" by (rule sdiv_bound)
  have "sint v sdiv sint w < 32768"
  proof (cases "sint v = - 32768")
    case True
    then have "v = - 32768"
      using word_of_int_sint_16 [of v] by simp
    then have "w \<noteq> - 1" using assms by simp
    then have "sint w \<noteq> - 1"
      by (simp add: sint_eq_minus_1_iff)
    then show ?thesis using True sdiv_minus_32768 by simp
  next
    case False
    then show ?thesis using b sint_range_16 [of v] by linarith
  qed
  moreover have "- 32768 \<le> sint v sdiv sint w"
    using b sint_range_16 [of v] by linarith
  ultimately show ?thesis
    by (simp add: div16_def sint_word_of_int_16)
qed


lemma observe_fuel: "observe (exec n prog) = Some x \<Longrightarrow> observe (exec (n + k) prog) = Some x"
proof -
  assume a: "observe (exec n prog) = Some x"
  then obtain r where r: "exec n prog = Some r"
    by (auto simp: observe_def)
  have "exec (n + k) prog = Some r"
    by (rule fuel_exec [OF _ r]) simp
  then show ?thesis
    using a r by (simp add: observe_def)
qed

definition division_program :: string where
  "division_program = ''10 A=10/3 B=%0 ?=A ?=B''"

definition division_by_zero_program :: string where
  "division_by_zero_program = ''10 ?=5/0 ?=1''"

definition stale_remainder_program :: string where
  "stale_remainder_program = ''10 A=10/3 B=7/0 C=%0 ?=C''"

text \<open>
  C4, as the spec states it, fails in one part: a division by zero does not write the
  remainder register. After \<open>10/3\<close> and then \<open>7/0\<close> the operator \<open>%\<close> still yields 1, the
  remainder of the division before the last one.
\<close>

theorem division_by_zero_keeps_remainder_counterexample:
  "observe (exec 20 stale_remainder_program) = Some (Returned, ''Division by zero'' @ [NL] @ ''1'')
   \<and> mod_reg (snd (applyOp CHR ''/'' 7 0 ((at_text [])\<lparr>mod_reg := 1\<rparr>))) = 1"
  by (simp add: stale_remainder_program_def at_text_def eval_defs cong: eval_congs)

lemma division_program_run: "observe (exec 20 division_program) = Some (Returned, ''31'')"
  by (simp add: division_program_def eval_defs cong: eval_congs)

lemma division_by_zero_program_run:
  "observe (exec 20 division_by_zero_program) =
     Some (Returned, ''Division by zero'' @ [NL] @ ''-11'')"
  by (simp add: division_by_zero_program_def eval_defs cong: eval_congs)

lemma expression_keeps_mod_reg:
  assumes "expression n m = Some r" and "CHR ''/'' \<notin> set (s m)"
  shows "mod_reg (state_of r) = mod_reg m"
  using frame_expression [of n] assms by (auto simp: kept_def)

text \<open>
  C4, amended: for a division \<open>v/w\<close> with \<open>w\<close> nonzero the result is the quotient truncated
  towards zero (wrapped to 16 bits in the one case -32768 / -1) and the remainder register
  is set to the signed remainder, so \<open>10/3\<close> yields 3 and \<open>%\<close> then yields 1; for \<open>w\<close>
  zero the message is printed, the result is -1, evaluation goes on and the remainder
  register is left as it was. The register is written by every division with a nonzero
  divisor and by nothing else: no other operator and no expression without \<open>/\<close> changes it.
\<close>

theorem division_and_remainder_register:
  "(w \<noteq> 0 \<longrightarrow>
      applyOp CHR ''/'' v w m = (div16 v w, m\<lparr>mod_reg := rem16 v w\<rparr>)
      \<and> div16 v w * w + rem16 v w = v
      \<and> sint (rem16 v w) = sint v smod sint w
      \<and> (\<not> (v = - 32768 \<and> w = - 1) \<longrightarrow> sint (div16 v w) = sint v sdiv sint w))
   \<and> applyOp CHR ''/'' v 0 m = (- 1, print m (''Division by zero'' @ [NL]))
   \<and> mod_reg (print m txt) = mod_reg m
   \<and> (c \<noteq> CHR ''/'' \<longrightarrow> mod_reg (snd (applyOp c v w m)) = mod_reg m)
   \<and> applyUnary CHR ''%'' x m = (mod_reg m, m)
   \<and> (expression n m = Some r \<and> CHR ''/'' \<notin> set (s m) \<longrightarrow> mod_reg (state_of r) = mod_reg m)
   \<and> observe (exec (20 + k) division_program) = Some (Returned, ''31'')
   \<and> observe (exec (20 + k) division_by_zero_program) =
       Some (Returned, ''Division by zero'' @ [NL] @ ''-11'')"
proof -
  have 1: "w \<noteq> 0 \<longrightarrow> applyOp CHR ''/'' v w m = (div16 v w, m\<lparr>mod_reg := rem16 v w\<rparr>)"
    by (simp add: applyOp_def)
  have 2: "applyOp CHR ''/'' v 0 m = (- 1, print m (''Division by zero'' @ [NL]))"
    by (simp add: applyOp_def)
  have 3: "mod_reg (print m txt) = mod_reg m"
    by (simp add: print_def)
  have 4: "applyUnary CHR ''%'' x m = (mod_reg m, m)"
    by (simp add: applyUnary_def)
  show ?thesis
    using 1 2 3 4 div16_rem16 [of v w] sint_rem16 [of w v] sint_div16 [of v w]
      mod_applyOp [of c v w m] expression_keeps_mod_reg [of n m r]
      observe_fuel [OF division_program_run, of k]
      observe_fuel [OF division_by_zero_program_run, of k]
    by blast
qed

theorem division_and_remainder_register_witness:
  "applyOp CHR ''/'' 10 3 (at_text ''10/3'') = (3, (at_text ''10/3'')\<lparr>mod_reg := 1\<rparr>)
   \<and> sint (div16 (- 7) 2) = - 3 \<and> sint (rem16 (- 7) 2) = - 1
   \<and> mod_reg (snd (applyOp CHR ''*'' 2 3 ((at_text ''2*3'')\<lparr>mod_reg := 1\<rparr>))) = 1
   \<and> mod_reg (state_of (Inr (5, (at_text ''2+3'')\<lparr>mod_reg := 1, pos := 3\<rparr>))) = 1"
proof -
  have e: "expression 5 ((at_text ''2+3'')\<lparr>mod_reg := 1\<rparr>)
      = Some (Inr (5, (at_text ''2+3'')\<lparr>mod_reg := 1, pos := 3\<rparr>))"
    by (simp add: at_text_def eval_defs cong: eval_congs)
  have f: "CHR ''/'' \<notin> set (s ((at_text ''2+3'')\<lparr>mod_reg := 1\<rparr>))"
    by (simp add: at_text_def NewInterpreter_def)
  have a: "applyOp CHR ''/'' 10 3 (at_text ''10/3'') = (3, (at_text ''10/3'')\<lparr>mod_reg := 1\<rparr>)"
    using division_and_remainder_register [of 3 10 "at_text ''10/3''"]
    by (simp add: div16_def rem16_def signed_divide_int_def signed_modulo_int_def)
  have b: "sint (div16 (- 7) 2) = - 3 \<and> sint (rem16 (- 7) 2) = - 1"
    using division_and_remainder_register [of 2 "- 7"]
    by (simp add: signed_divide_int_def signed_modulo_int_def)
  have c: "mod_reg (snd (applyOp CHR ''*'' 2 3 ((at_text ''2*3'')\<lparr>mod_reg := 1\<rparr>))) = 1"
    using division_and_remainder_register [of 3 2 "(at_text ''2*3'')\<lparr>mod_reg := 1\<rparr>" _ "CHR ''*''"]
    by simp
  have d: "mod_reg (state_of (Inr (5, (at_text ''2+3'')\<lparr>mod_reg := 1, pos := 3\<rparr>))) = 1"
    using e f division_and_remainder_register [of 3 2 "(at_text ''2+3'')\<lparr>mod_reg := 1\<rparr>" _ _ _ 5
        "Inr (5, (at_text ''2+3'')\<lparr>mod_reg := 1, pos := 3\<rparr>)"]
    by simp
  show ?thesis
    using a b c d by simp
qed

section \<open>Scanning in closed form\<close>

text \<open>What is left of the text at the cursor.\<close>

definition rest :: "interp \<Rightarrow> string" where
  "rest m = drop (pos m) (s m)"

lemma rest_Nil: "rest m = [] \<longleftrightarrow> length (s m) \<le> pos m"
  by (simp add: rest_def)

lemma rest_Cons: "pos m < length (s m) \<Longrightarrow> rest m = currentChar m # rest (advance m 1)"
  by (simp add: rest_def currentChar_def advance_def Cons_nth_drop_Suc)

lemma currentChar_rest: "currentChar m = (case rest m of [] \<Rightarrow> NUL | c # cs \<Rightarrow> c)"
proof (cases "pos m < length (s m)")
  case True
  then show ?thesis by (simp add: rest_Cons)
next
  case False
  then have "rest m = []" by (simp add: rest_def)
  then show ?thesis using False by (simp add: currentChar_def)
qed

lemma advanceWhile_closed:
  "advanceWhile p m = m\<lparr>pos := pos m + length (takeWhile p (rest m))\<rparr>"
proof (induction p m rule: advanceWhile.induct)
  case (1 p m)
  show ?case
  proof (cases "pos m < length (s m) \<and> p (currentChar m)")
    case True
    then have "advanceWhile p m = advanceWhile p (advance m 1)"
      by (simp add: advanceWhile_step)
    also have "\<dots> = (advance m 1)\<lparr>pos := pos (advance m 1)
        + length (takeWhile p (rest (advance m 1)))\<rparr>"
      using True by (rule "1.IH")
    also have "\<dots> = m\<lparr>pos := pos m + length (takeWhile p (rest m))\<rparr>"
      using True by (simp add: rest_Cons) (simp add: advance_def)
    finally show ?thesis .
  next
    case False
    have "takeWhile p (rest m) = []"
    proof (cases "pos m < length (s m)")
      case True
      then show ?thesis using False by (simp add: rest_Cons)
    next
      case False
      then show ?thesis by (simp add: rest_def)
    qed
    then show ?thesis
      using False by (simp add: advanceWhile_stop)
  qed
qed

lemma rest_advanceWhile: "rest (advanceWhile p m) = dropWhile p (rest m)"
proof -
  have "drop (length (takeWhile p (rest m))) (rest m) = dropWhile p (rest m)"
    by (simp add: dropWhile_eq_drop)
  then show ?thesis
    by (simp add: advanceWhile_closed rest_def add.commute)
qed

section \<open>Variable names\<close>

lemma getVariable_closed:
  "isAlpha (currentChar m) \<Longrightarrow>
     getVariable m = (currentChar m, m\<lparr>pos := pos m + length (takeWhile isAlpha (rest m))\<rparr>)"
  by (simp add: getVariable_def advanceWhile_closed)

lemma isAlpha_not_sigil:
  assumes "isAlpha c"
  shows "c \<noteq> NUL" "c \<noteq> NL" "c \<noteq> CHR '' ''" "c \<noteq> CHR 0x22" "c \<noteq> CHR ''/''" "c \<noteq> CHR ''.''"
    "c \<noteq> CHR ''*''" "c \<noteq> CHR ''?''" "c \<noteq> CHR 0x27" "c \<noteq> CHR ''$''" "c \<noteq> CHR ''#''"
    "c \<noteq> CHR ''!''" "c \<noteq> CHR '']''" "c \<noteq> CHR ''@''" "c \<noteq> CHR '';''" "c \<noteq> CHR ''(''"
  using assms by (auto simp: isAlpha_def code_def NUL_def NL_def)

lemma skipSpaces_no_space: "currentChar m \<noteq> CHR '' '' \<Longrightarrow> skipSpaces m = m"
  by (simp add: skipSpaces_def advanceWhile_stop)

lemma variables_getVariable: "variables (snd (getVariable m)) = variables m"
  using ctx_prims(7) [of m] by (simp add: ctx_def)

lemma term'_variable:
  assumes "isAlpha (currentChar m)"
    and "currentChar (snd (getVariable m)) \<noteq> CHR '':''"
    and "currentChar (snd (getVariable m)) \<noteq> CHR ''(''"
  shows "term' (Suc n) m = Some (Inr (variables m (varIndex (currentChar m)), snd (getVariable m)))"
proof -
  have "fst (getVariable m) = currentChar m"
    using assms(1) by (simp add: getVariable_def)
  then show ?thesis
    using assms isAlpha_not_sigil [OF assms(1)]
    by (simp add: term'.simps(2) skipSpaces_no_space Let_def split_beta variables_getVariable)
qed

lemma currentChar_variables_update: "currentChar (m\<lparr>variables := f\<rparr>) = currentChar m"
  by (simp add: currentChar_def)

lemma statement_simple_assignment:
  assumes "isAlpha (currentChar m)"
    and "currentChar (snd (getVariable m)) = CHR ''=''"
    and "expression n (advance (snd (getVariable m)) 1) = Some (Inr (v, m'))"
    and "currentChar m' \<noteq> CHR '',''"
  shows "statement n m =
    Some (Inr (Continue, m'\<lparr>variables := (variables m')(varIndex (currentChar m) := v)\<rparr>))"
proof -
  have "fst (getVariable m) = currentChar m"
    using assms(1) by (simp add: getVariable_def)
  then have "assignment n m =
      Some (Inr (m'\<lparr>variables := (variables m')(varIndex (currentChar m) := v)\<rparr>))"
    using assms
    by (simp add: assignment_def Let_def split_beta skipChar_def bnd_simps forLoop_def
        currentChar_variables_update)
  then show ?thesis
    using assms(1) isAlpha_not_sigil [OF assms(1)]
    by (simp add: statement_def Let_def bnd_simps)
qed

lemma mod_256_lower:
  assumes "97 \<le> x" and "x \<le> (122::nat)"
  shows "(159 + x) mod 256 = x - 97"
proof -
  have "159 + x = (x - 97) + 256" using assms by simp
  then have "(159 + x) mod 256 = (x - 97) mod 256" by (simp only: mod_add_self2)
  then show ?thesis using assms by simp
qed

lemma mod_256_upper:
  assumes "65 \<le> x" and "x \<le> (90::nat)"
  shows "(191 + x) mod 256 = x - 65"
proof -
  have "191 + x = (x - 65) + 256" using assms by simp
  then have "(191 + x) mod 256 = (x - 65) mod 256" by (simp only: mod_add_self2)
  then show ?thesis using assms by simp
qed

lemma varIndex_letter:
  assumes "isAlpha c"
  shows "varIndex c < 26" and "varIndex (toUpper c) = varIndex c"
    and "varIndex c = (if code c < 97 then code c - 65 else code c - 97)"
  using assms
  by (auto simp: isAlpha_def varIndex_def toUpper_def code_def mod_256_lower mod_256_upper)

definition count_program :: string where
  "count_program = ''10 COUNT=5 ?=C ?=count+1''"

lemma count_program_run: "observe (exec 20 count_program) = Some (Returned, ''56'')"
  by (simp add: count_program_def eval_defs cong: eval_congs)


text \<open>
  C10: wherever a variable name is read, \<open>getVariable\<close> consumes the maximal run of letters
  at the cursor as one token and answers its first letter; the variable is the one of
  that letter without regard to case, one of the 26. A reference in an expression reads
  that variable and an assignment writes it: \<open>COUNT=5\<close> stores 5 in \<open>C\<close>, and \<open>count\<close>
  reads it back.
\<close>

theorem variable_is_first_letter_of_letter_run:
  "(isAlpha (currentChar m) \<longrightarrow>
      getVariable m = (currentChar m, m\<lparr>pos := pos m + length (takeWhile isAlpha (rest m))\<rparr>)
      \<and> varIndex (currentChar m) < 26
      \<and> varIndex (toUpper (currentChar m)) = varIndex (currentChar m)
      \<and> (currentChar (snd (getVariable m)) \<noteq> CHR '':''
           \<and> currentChar (snd (getVariable m)) \<noteq> CHR ''('' \<longrightarrow>
         term' (Suc n) m =
           Some (Inr (variables m (varIndex (currentChar m)), snd (getVariable m))))
      \<and> (currentChar (snd (getVariable m)) = CHR ''=''
           \<and> expression n (advance (snd (getVariable m)) 1) = Some (Inr (v, m'))
           \<and> currentChar m' \<noteq> CHR '','' \<longrightarrow>
         statement n m =
           Some (Inr (Continue, m'\<lparr>variables := (variables m')(varIndex (currentChar m) := v)\<rparr>))))
   \<and> observe (exec (20 + k) count_program) = Some (Returned, ''56'')"
  using getVariable_closed [of m] varIndex_letter(1,2) [of "currentChar m"] term'_variable [of m n]
    statement_simple_assignment [of m n v m'] observe_fuel [OF count_program_run, of k]
  by blast

theorem variable_is_first_letter_of_letter_run_witness:
  "getVariable (at_text ''COUNT=5'') = (CHR ''C'', (at_text ''COUNT=5'')\<lparr>pos := 5\<rparr>)
   \<and> varIndex CHR ''C'' = 2 \<and> varIndex CHR ''c'' = 2
   \<and> map_option (map_sum fst fst) (term' 1 ((at_text ''count'')\<lparr>variables := (\<lambda>i. 0)(2 := 7)\<rparr>))
       = Some (Inr 7)
   \<and> map_option (map_sum fst (\<lambda>(c, m). sint (variables m 2))) (statement 3 (at_text ''COUNT=5''))
       = Some (Inr 5)"
proof -
  let ?m = "at_text ''COUNT=5''"
  let ?r = "(at_text ''count'')\<lparr>variables := (\<lambda>i. 0)(2 := 7)\<rparr>"
  have a: "isAlpha (currentChar ?m)" "currentChar ?m = CHR ''C''"
    by (simp_all add: at_text_def NewInterpreter_def currentChar_def isAlpha_def code_def)
  have b: "rest ?m = ''COUNT=5''" "pos ?m = 0"
    by (simp_all add: at_text_def NewInterpreter_def rest_def)
  have g: "getVariable ?m = (CHR ''C'', ?m\<lparr>pos := 5\<rparr>)"
    using a b variable_is_first_letter_of_letter_run [of ?m]
    by (simp add: isAlpha_def code_def)
  have c: "varIndex CHR ''C'' = 2" "varIndex CHR ''c'' = 2"
    by (simp_all add: varIndex_def toUpper_def code_def char_of_def bit_Suc_0_iff)
  have e: "expression 3 (advance (?m\<lparr>pos := 5\<rparr>) 1)
      = Some (Inr (5, ?m\<lparr>pos := 7\<rparr>))"
    by (simp add: at_text_def eval_defs cong: eval_congs)
  have f: "currentChar (?m\<lparr>pos := 5\<rparr>) = CHR ''=''" "currentChar (?m\<lparr>pos := 7\<rparr>) \<noteq> CHR '',''"
    by (simp_all add: at_text_def NewInterpreter_def currentChar_def NUL_def)
  have st: "statement 3 ?m
      = Some (Inr (Continue, ?m\<lparr>pos := 7, variables := (variables (?m\<lparr>pos := 7\<rparr>))(2 := 5)\<rparr>))"
    using a g c e f variable_is_first_letter_of_letter_run [of ?m 3 5 "?m\<lparr>pos := 7\<rparr>"]
    by simp
  have ra: "isAlpha (currentChar ?r)" "currentChar ?r = CHR ''c''"
    by (simp_all add: at_text_def NewInterpreter_def currentChar_def isAlpha_def code_def)
  have rb: "rest ?r = ''count''" "pos ?r = 0"
    by (simp_all add: at_text_def NewInterpreter_def rest_def)
  have rg: "getVariable ?r = (CHR ''c'', ?r\<lparr>pos := 5\<rparr>)"
    using ra rb variable_is_first_letter_of_letter_run [of ?r]
    by (simp add: isAlpha_def code_def)
  have rf: "currentChar (?r\<lparr>pos := 5\<rparr>) = NUL"
    by (simp add: at_text_def NewInterpreter_def currentChar_def)
  have tm: "term' (Suc 0) ?r = Some (Inr (variables ?r 2, ?r\<lparr>pos := 5\<rparr>))"
    using ra rg c rf variable_is_first_letter_of_letter_run [of ?r 0]
    by (simp add: NUL_def)
  show ?thesis
    using g c st tm by (simp add: at_text_def NewInterpreter_def)
qed

section \<open>Array addresses\<close>

definition negative_address_write :: string where
  "negative_address_write = ''10 A=0-1 A:0)=1''"

definition negative_address_read :: string where
  "negative_address_read = ''10 A=32767 ?=A:1)''"

definition word_across_the_middle :: string where
  "word_across_the_middle = ''10 A=32767 A(0)=1''"

text \<open>
  C1 does not hold of the code: the address \<open>m.variables[varIdx] + idx\<close> is an \<open>int16\<close>, the
  addition wraps to 16 bits, and the array is indexed with its signed value. A negative
  address is a Go index out of range, which stops the process; the upper half of the
  65536 bytes is never reached. The byte write at address -1, the byte read at 32767 + 1
  and the word write at 32767 all panic, and an access panics exactly when the signed
  value of its wrapped address is negative.
\<close>

theorem negative_address_panics:
  "observe (exec 20 negative_address_write) = Some (Panicked, [])
   \<and> observe (exec 20 negative_address_read) = Some (Panicked, [])
   \<and> observe (exec 20 word_across_the_middle) = Some (Panicked, [])
   \<and> (byteAt m (base + idx) = Inl (Panicked, m)) = (sint (base + idx) < 0)
   \<and> (setByteAt m (base + idx) v = Inl (Panicked, m)) = (sint (base + idx) < 0)"
proof -
  have "sint (base + idx) < 65536"
    using sint_range_16 [of "base + idx"] by simp
  then have "(byteAt m (base + idx) = Inl (Panicked, m)) = (sint (base + idx) < 0)"
    "(setByteAt m (base + idx) v = Inl (Panicked, m)) = (sint (base + idx) < 0)"
    by (auto simp: byteAt_def setByteAt_def mem_index_def)
  moreover have "observe (exec 20 negative_address_write) = Some (Panicked, [])"
    "observe (exec 20 negative_address_read) = Some (Panicked, [])"
    "observe (exec 20 word_across_the_middle) = Some (Panicked, [])"
    by (simp_all add: negative_address_write_def negative_address_read_def
        word_across_the_middle_def eval_defs cong: eval_congs)
  ultimately show ?thesis by simp
qed

section \<open>Counted loops\<close>

text \<open>The four cells of a counted-loop frame, in the order they are pushed.\<close>

definition forFrame :: "nat \<Rightarrow> string \<Rightarrow> nat \<Rightarrow> int16 \<Rightarrow> cell list" where
  "forFrame i t p toVal = [CInt (int i), CStr t, CInt (int p), CI16 toVal]"

lemma expression_ctx:
  assumes "expression n m = Some (Inr (v, m'))"
  shows "ctx m' = ctx m"
proof -
  have "\<forall>m r. expression n m = Some r \<longrightarrow> kept m (state_of r)"
    using frame_expression [of n] by blast
  then have "kept m (state_of (Inr (v, m')))"
    using assms by blast
  then show ?thesis by (simp add: kept_def)
qed

lemma forLoop_push:
  assumes "currentChar m = CHR '',''"
    and "expression n (advance m 1) = Some (Inr (toVal, m1))"
    and "forMode m = 0 \<or> \<not> toVal <s variables m i"
  shows "forLoop n i m =
    Some (Inr (m1\<lparr>stack := stack m1 @ forFrame i (s m1) (pos m1) toVal, sp := sp m1 + 4\<rparr>))"
proof -
  have "ctx m1 = ctx (advance m 1)"
    using assms(2) by (rule expression_ctx)
  then have "forMode m1 = forMode m" "variables m1 = variables m"
    by (simp_all add: ctx_def advance_def)
  then show ?thesis
    using assms
    by (auto simp: forLoop_def skipChar_def bnd_simps Let_def push_def forFrame_def)
qed

lemma forLoop_skip:
  assumes "currentChar m = CHR '',''"
    and "expression n (advance m 1) = Some (Inr (toVal, m1))"
    and "forMode m \<noteq> 0" and "toVal <s variables m i"
    and "currentChar (advanceWhile (\<lambda>c. c \<noteq> CHR ''@'' \<and> c \<noteq> NUL) m1) = CHR ''@''"
    and "expression n (skipChar (advance (advanceWhile (\<lambda>c. c \<noteq> CHR ''@'' \<and> c \<noteq> NUL) m1) 1)
           CHR ''='') = Some (Inr (w, m3))"
  shows "forLoop n i m = Some (Inr m3) \<and> stack m3 = stack m \<and> sp m3 = sp m
    \<and> variables m3 = variables m"
proof -
  let ?m2 = "advanceWhile (\<lambda>c. c \<noteq> CHR ''@'' \<and> c \<noteq> NUL) m1"
  have c1: "ctx m1 = ctx (advance m 1)"
    using assms(2) by (rule expression_ctx)
  have c3: "ctx m3 = ctx (skipChar (advance ?m2 1) CHR ''='')"
    using assms(6) by (rule expression_ctx)
  have "ctx m3 = ctx m"
    using c1 c3 by (simp add: ctx_prims)
  then have k: "stack m3 = stack m" "sp m3 = sp m" "variables m3 = variables m"
    by (simp_all add: ctx_def)
  have "forMode m1 = forMode m" "variables m1 = variables m"
    using c1 by (simp_all add: ctx_def advance_def)
  then have "forLoop n i m = Some (Inr m3)"
    using assms
    by (simp add: forLoop_def skipChar_def bnd_simps Let_def NUL_def)
  then show ?thesis using k by simp
qed

lemma cellAt_append:
  "cellAt (st @ [a, b, c, d]) (int (length st)) = Some a"
  "cellAt (st @ [a, b, c, d]) (int (length st) + 1) = Some b"
  "cellAt (st @ [a, b, c, d]) (int (length st) + 2) = Some c"
  "cellAt (st @ [a, b, c, d]) (int (length st) + 3) = Some d"
  by (simp_all add: cellAt_def nth_append nat_add_distrib)

lemma nextLoop_frame:
  assumes "stack m = st @ forFrame i t p toVal" and "sp m = int (length (stack m))" and "i < 26"
    and "expression n (m\<lparr>sp := int (length st), stack := st\<rparr>) = Some (Inr (v, m2))"
  shows "nextLoop n m =
    Some (Inr (if v \<le>s toVal
      then m2\<lparr>variables := (variables m2)(i := v), s := t, pos := p,
              stack := stack m2 @ forFrame i t p toVal, sp := sp m2 + 4\<rparr>
      else m2\<lparr>variables := (variables m2)(i := v)\<rparr>))"
proof -
  have sp: "sp m = int (length st) + 4"
    using assms(1,2) by (simp add: forFrame_def)
  have tr: "truncateStack (m\<lparr>sp := sp m - 3, sp := sp m - 3 - 1\<rparr>)
      = m\<lparr>sp := int (length st), stack := st\<rparr>"
    using assms(1) sp by (simp add: truncateStack_def)
  show ?thesis
    using assms(1,3,4) sp tr cellAt_append [of st "CInt (int i)" "CStr t" "CInt (int p)" "CI16 toVal"]
    by (simp add: nextLoop_def Let_def forFrame_def bnd_simps push_def add.commute)
qed


definition for_off_program :: string where
  \<open>for_off_program = ''10 I=5,3 "x" @=I+1 "y"''\<close>

definition for_on_program :: string where
  \<open>for_on_program = ''10 *FM1 I=5,3 "x" @=I+1 ?=I''\<close>

definition for_step_down_program :: string where
  \<open>for_step_down_program = ''10 I=5,3 "x" @=7-I''\<close>

text \<open>
  C7, as the spec states it, fails for the mode that is off: the loop-step decides alone
  whether the body runs again, by comparing the value of its expression with the bound.
  With the start 5 above the bound 3 and the step \<open>@=7-I\<close> the stepped value is 2, so
  the body runs a second time: the program prints \<open>xx\<close>.
\<close>

theorem body_twice_counterexample:
  "observe (exec 20 for_step_down_program) = Some (Returned, ''xx'')
   \<and> observe (exec 20 for_step_down_program) \<noteq> Some (Returned, ''x'')"
  by (simp add: for_step_down_program_def eval_defs cong: eval_congs)

lemma for_off_program_run: "observe (exec 20 for_off_program) = Some (Returned, ''xy'')"
  by (simp add: for_off_program_def eval_defs cong: eval_congs)

lemma for_on_program_run: "observe (exec 20 for_on_program) = Some (Returned, ''5'')"
  by (simp add: for_on_program_def eval_defs cong: eval_congs)

text \<open>
  C7, amended. With the for-mode flag off, a counted loop whose start exceeds the bound
  pushes its frame and goes on into the body, so the body runs once; at the loop-step the
  expression is evaluated and stored, and the loop ends there, with the frame popped,
  when the stepped value still exceeds the bound (otherwise the cursor goes back to the
  body with the frame pushed again). With increment \<open>I+1\<close> from 5 and bound 3 the body
  runs exactly once. With the flag on, the same loop pushes no frame, skips the text up
  to the next \<open>@\<close>, and evaluates the expression after \<open>@=\<close> once, leaving the variables
  as they are.
\<close>

theorem counted_loop_start_above_bound:
  "(currentChar m = CHR '','' \<and> expression n (advance m 1) = Some (Inr (toVal, m1))
      \<and> forMode m = 0 \<longrightarrow>
      forLoop n i m =
        Some (Inr (m1\<lparr>stack := stack m1 @ forFrame i (s m1) (pos m1) toVal, sp := sp m1 + 4\<rparr>)))
   \<and> (stack m = st @ forFrame i t p toVal \<and> sp m = int (length (stack m)) \<and> i < 26
      \<and> expression n (m\<lparr>sp := int (length st), stack := st\<rparr>) = Some (Inr (v, m2)) \<longrightarrow>
      nextLoop n m =
        Some (Inr (if v \<le>s toVal
          then m2\<lparr>variables := (variables m2)(i := v), s := t, pos := p,
                  stack := stack m2 @ forFrame i t p toVal, sp := sp m2 + 4\<rparr>
          else m2\<lparr>variables := (variables m2)(i := v)\<rparr>))
      \<and> stack m2 = st)
   \<and> (currentChar m = CHR '','' \<and> expression n (advance m 1) = Some (Inr (toVal, m1))
      \<and> forMode m \<noteq> 0 \<and> toVal <s variables m i
      \<and> currentChar (advanceWhile (\<lambda>c. c \<noteq> CHR ''@'' \<and> c \<noteq> NUL) m1) = CHR ''@''
      \<and> expression n (skipChar (advance (advanceWhile (\<lambda>c. c \<noteq> CHR ''@'' \<and> c \<noteq> NUL) m1) 1)
            CHR ''='') = Some (Inr (w, m3)) \<longrightarrow>
      forLoop n i m = Some (Inr m3) \<and> stack m3 = stack m \<and> sp m3 = sp m
      \<and> variables m3 = variables m)
   \<and> observe (exec (20 + k) for_off_program) = Some (Returned, ''xy'')
   \<and> observe (exec (20 + k) for_on_program) = Some (Returned, ''5'')"
proof -
  have "stack m2 = st"
    if "expression n (m\<lparr>sp := int (length st), stack := st\<rparr>) = Some (Inr (v, m2))"
    using expression_ctx [OF that] by (simp add: ctx_def)
  then show ?thesis
    using forLoop_push [of m n toVal m1 i] nextLoop_frame [of m st i t p toVal n v m2]
      forLoop_skip [of m n toVal m1 i w m3]
      observe_fuel [OF for_off_program_run, of k] observe_fuel [OF for_on_program_run, of k]
    by blast
qed

text \<open>
  States for the witness: at the bound \<open>,3\<close> with \<open>I = 5\<close>, at the step \<open>I+1\<close> under a frame
  with bound 3, and at the bound with the flag on and the loop text ahead.
\<close>

definition at_bound :: "int \<Rightarrow> interp" where
  \<open>at_bound fm = (at_text '',3 "x" @=I+1'')\<lparr>variables := (\<lambda>i. 0)(8 := 5), forMode := fm\<rparr>\<close>

definition at_step :: "int16 \<Rightarrow> interp" where
  "at_step x = (at_text ''I+1'')\<lparr>variables := (\<lambda>i. 0)(8 := x),
     stack := forFrame 8 ''body'' 0 3, sp := 4\<rparr>"

theorem counted_loop_start_above_bound_witness:
  "map_option (map_sum fst (\<lambda>m. (pos m, stack m, sp m))) (forLoop 5 8 (at_bound 0))
     = Some (Inr (2, forFrame 8 (s (at_bound 0)) 2 3, 4))
   \<and> map_option (map_sum fst (\<lambda>m. (variables m 8, pos m, stack m, sp m))) (nextLoop 5 (at_step 5))
     = Some (Inr (6, 3, [], 0))
   \<and> map_option (map_sum fst (\<lambda>m. (variables m 8, s m, pos m, stack m, sp m)))
       (nextLoop 5 (at_step 1))
     = Some (Inr (2, ''body'', 0, forFrame 8 ''body'' 0 3, 4))
   \<and> map_option (map_sum fst (\<lambda>m. (variables m 8, pos m, stack m, sp m))) (forLoop 5 8 (at_bound 1))
     = Some (Inr (5, 12, [], 0))"
proof -
  have a: "currentChar (at_bound fm) = CHR '',''" for fm
    by (simp add: at_bound_def at_text_def NewInterpreter_def currentChar_def)
  have b: "expression 5 (advance (at_bound fm) 1) = Some (Inr (3, (at_bound fm)\<lparr>pos := 2\<rparr>))" for fm
    by (simp add: at_bound_def at_text_def eval_defs cong: eval_congs)
  have 1: "forLoop 5 8 (at_bound 0) = Some (Inr ((at_bound 0)\<lparr>pos := 2,
      stack := forFrame 8 (s (at_bound 0)) 2 3, sp := 4\<rparr>))"
    using a [of 0] b [of 0] counted_loop_start_above_bound [where m = "at_bound 0" and n = 5 and toVal = 3
        and ?m1.0 = "(at_bound 0)\<lparr>pos := 2\<rparr>" and i = 8]
    by (simp add: at_bound_def at_text_def NewInterpreter_def)
  have c: "stack (at_step x) = [] @ forFrame 8 ''body'' 0 3"
    "sp (at_step x) = int (length (stack (at_step x)))" for x
    by (simp_all add: at_step_def forFrame_def)
  have d: "expression 5 ((at_step x)\<lparr>sp := int (length ([] :: cell list)), stack := []\<rparr>)
      = Some (Inr (x + 1, (at_step x)\<lparr>sp := 0, stack := [], pos := 3\<rparr>))" for x
    by (simp add: at_step_def at_text_def eval_defs cong: eval_congs)
  have 2: "nextLoop 5 (at_step 5)
      = Some (Inr ((at_step 5)\<lparr>sp := 0, stack := [], pos := 3, variables := (\<lambda>i. 0)(8 := 6)\<rparr>))"
    using c [of 5] d [of 5]
      counted_loop_start_above_bound [where m = "at_step 5" and n = 5 and st = "[]" and i = 8
        and t = "''body''" and p = 0 and toVal = 3 and v = 6
        and ?m2.0 = "(at_step 5)\<lparr>sp := 0, stack := [], pos := 3\<rparr>"]
    by (simp add: word_sle_eq) (simp add: at_step_def)
  have 3: "nextLoop 5 (at_step 1)
      = Some (Inr ((at_step 1)\<lparr>variables := (\<lambda>i. 0)(8 := 2), s := ''body'', pos := 0\<rparr>))"
    using c [of 1] d [of 1]
      counted_loop_start_above_bound [where m = "at_step 1" and n = 5 and st = "[]" and i = 8
        and t = "''body''" and p = 0 and toVal = 3 and v = 2
        and ?m2.0 = "(at_step 1)\<lparr>sp := 0, stack := [], pos := 3\<rparr>"]
    by (simp add: word_sle_eq) (simp add: at_step_def)
  have e: "advanceWhile (\<lambda>c. c \<noteq> CHR ''@'' \<and> c \<noteq> NUL) ((at_bound 1)\<lparr>pos := 2\<rparr>)
      = (at_bound 1)\<lparr>pos := 7\<rparr>"
    by (simp add: at_bound_def at_text_def eval_defs cong: eval_congs)
  have f: "currentChar ((at_bound 1)\<lparr>pos := 7\<rparr>) = CHR ''@''"
    by (simp add: at_bound_def at_text_def NewInterpreter_def currentChar_def)
  have g: "expression 5 (skipChar (advance ((at_bound 1)\<lparr>pos := 7\<rparr>) 1) CHR ''='')
      = Some (Inr (6, (at_bound 1)\<lparr>pos := 12\<rparr>))"
    by (simp add: at_bound_def at_text_def eval_defs cong: eval_congs)
  have h: "forMode (at_bound 1) \<noteq> 0" "3 <s variables (at_bound 1) 8"
    by (simp_all add: at_bound_def word_sless_alt)
  have 4: "forLoop 5 8 (at_bound 1) = Some (Inr ((at_bound 1)\<lparr>pos := 12\<rparr>))"
    using a [of 1] b [of 1] e f g h
      counted_loop_start_above_bound [where m = "at_bound 1" and n = 5 and toVal = 3
        and ?m1.0 = "(at_bound 1)\<lparr>pos := 2\<rparr>" and i = 8 and w = 6
        and ?m3.0 = "(at_bound 1)\<lparr>pos := 12\<rparr>"]
    by simp
  show ?thesis
    unfolding 1 2 3 4
    by (simp add: at_bound_def at_step_def at_text_def NewInterpreter_def forFrame_def)
qed

end
